theory Spec2Isabelle
  imports Complex_Main "HOL-Library.Log_Nat"
begin

section \<open>The streaming TTS gateway of \<^verbatim>\<open>tts_server.py\<close>\<close>

text \<open>
  A shallow embedding of \<^verbatim>\<open>src/ClawK/Resources/tts_server.py\<close>. The two module
  globals (\<^verbatim>\<open>connected_clients\<close>, \<^verbatim>\<open>rate_limit_tracker\<close>) become a record that
  every operation takes and returns. A reading of \<^verbatim>\<open>time.monotonic()\<close> is an input of
  the operation that makes it: the real number that the double stands for. The float
  subtraction \<^verbatim>\<open>now - t\<close> is the exact difference rounded to the nearest double
  (\<open>round_double\<close>). A Python \<^verbatim>\<open>str\<close> is a
  \<open>string\<close>, one element per code point, so that \<open>length\<close> is Python's \<^verbatim>\<open>len\<close>.
  Log calls have no effect on what the claims speak of and are left out, except where
  evaluating a log argument can raise. Every \<^verbatim>\<open>websocket.send\<close> is taken to succeed: a
  peer that has closed ends the message list of its connection.
\<close>

subsection \<open>Module constants (lines 14--40)\<close>

definition MAX_TEXT_LENGTH :: nat where
  "MAX_TEXT_LENGTH = 5000"

definition MAX_CONNECTIONS :: nat where
  "MAX_CONNECTIONS = 5"

definition RATE_LIMIT_WINDOW :: real where
  "RATE_LIMIT_WINDOW = 60"

definition RATE_LIMIT_MAX_REQUESTS :: nat where
  "RATE_LIMIT_MAX_REQUESTS = 20"

definition ALLOWED_VOICES :: "string set" where
  "ALLOWED_VOICES =
     {''en-GB-RyanNeural'', ''en-US-GuyNeural'', ''en-US-JennyNeural'',
      ''en-US-AriaNeural'', ''en-GB-SoniaNeural'', ''en-AU-NatashaNeural'',
      ''en-AU-WilliamNeural'', ''en-IN-NeerjaNeural'', ''en-IN-PrabhatNeural''}"

definition SHUTDOWN_TIMEOUT :: nat where
  "SHUTDOWN_TIMEOUT = 5"

definition SERVER_VERSION :: string where
  "SERVER_VERSION = ''1.0.0''"

subsection \<open>The rate limiter (lines 52--68)\<close>

type_synonym tracker = "string \<rightharpoonup> real list"

text \<open>\<^verbatim>\<open>rate_limit_tracker: dict = {}\<close>\<close>

definition empty_tracker :: tracker where
  "empty_tracker = Map.empty"

text \<open>\<^verbatim>\<open>rate_limit_tracker.get(key, [])\<close>\<close>

definition tracker_get :: "tracker \<Rightarrow> string \<Rightarrow> real list" where
  "tracker_get tr key = (case tr key of None \<Rightarrow> [] | Some ts \<Rightarrow> ts)"

text \<open>
  Python's \<^verbatim>\<open>float\<close> is the IEEE double, and its arithmetic rounds to nearest, ties to
  even. \<open>round_half_even\<close> rounds a real number to the nearest integer, ties to the even
  one.
\<close>

definition round_half_even :: "real \<Rightarrow> int" where
  "round_half_even y =
     (let f = \<lfloor>y\<rfloor>; d = y - of_int f
      in if d < 1 / 2 then f
         else if d > 1 / 2 then f + 1
         else if even f then f else f + 1)"

text \<open>
  The doubles around \<open>x\<close> are the multiples of \<open>2 powi double_exponent x\<close>: 53
  significant bits from \<open>2 powi (- 1022)\<close> upwards, and the fixed spacing
  \<open>2 powi (- 1074)\<close> below. \<open>bitlen\<close> is the number of binary digits of an integer.
\<close>

definition double_exponent :: "real \<Rightarrow> int" where
  "double_exponent x = max (bitlen \<lfloor>\<bar>x\<bar> * 2 ^ 1074\<rfloor> - 53) 0 - 1074"

text \<open>
  The double nearest to \<open>x\<close>. Applied to the exact difference of two doubles it is the
  double subtraction. A result beyond the largest double is an infinity in Python and a
  large number here; the two compare with \<open>RATE_LIMIT_WINDOW\<close> in the same way.
\<close>

definition round_double :: "real \<Rightarrow> real" where
  "round_double x =
     (let e = double_exponent x
      in of_int (round_half_even (x / 2 powi e)) * 2 powi e)"

text \<open>
  \<^verbatim>\<open>check_rate_limit(remote)\<close>: \<open>key\<close> is \<^verbatim>\<open>str(remote)\<close>, \<open>now\<close> the reading of the
  monotonic clock. The list comprehension builds a new list, so the append touches no
  other entry. The comparison of the float \<^verbatim>\<open>now - t\<close> with the integer
  \<^verbatim>\<open>RATE_LIMIT_WINDOW\<close> is exact.
\<close>

definition check_rate_limit :: "string \<Rightarrow> real \<Rightarrow> tracker \<Rightarrow> bool \<times> tracker" where
  "check_rate_limit key now tr =
     (let timestamps = tracker_get tr key;
          timestamps = filter (\<lambda>t. round_double (now - t) < RATE_LIMIT_WINDOW) timestamps
      in if length timestamps \<ge> RATE_LIMIT_MAX_REQUESTS
         then (False, tr(key \<mapsto> timestamps))
         else (True, tr(key \<mapsto> timestamps @ [now])))"

text \<open>Successive calls for one key, at the clock readings \<open>nows\<close>, in order.\<close>

fun check_all :: "string \<Rightarrow> real list \<Rightarrow> tracker \<Rightarrow> bool list \<times> tracker" where
  "check_all key [] tr = ([], tr)"
| "check_all key (now # nows) tr =
     (case check_rate_limit key now tr of
        (ok, tr1) \<Rightarrow> (case check_all key nows tr1 of (oks, tr2) \<Rightarrow> (ok # oks, tr2)))"

text \<open>
  The algorithm in the words of the specification, for comparison only: "discard
  timestamps older than \<open>now - WINDOW\<close>", that is, those with \<open>t < now - WINDOW\<close>,
  in exact arithmetic.
\<close>

definition allow_as_specified :: "string \<Rightarrow> real \<Rightarrow> tracker \<Rightarrow> bool \<times> tracker" where
  "allow_as_specified key now tr =
     (let kept = filter (\<lambda>t. \<not> t < now - RATE_LIMIT_WINDOW) (tracker_get tr key)
      in if length kept \<ge> RATE_LIMIT_MAX_REQUESTS
         then (False, tr(key \<mapsto> kept))
         else (True, tr(key \<mapsto> kept @ [now])))"

subsection \<open>Messages and collaborators\<close>

text \<open>
  What \<^verbatim>\<open>json.loads\<close> returns: a Python value built from \<^verbatim>\<open>None\<close>, \<^verbatim>\<open>bool\<close>, numbers,
  \<^verbatim>\<open>str\<close>, \<^verbatim>\<open>list\<close> and \<^verbatim>\<open>dict\<close>. A dict is an association list read with \<open>map_of\<close>.
\<close>

datatype json =
    JNull
  | JBool bool
  | JNum real
  | JStr string
  | JArr "json list"
  | JObj "(string \<times> json) list"

type_synonym bytes = string

text \<open>One inbound websocket message: a text frame (\<^verbatim>\<open>str\<close>) or a binary frame (\<^verbatim>\<open>bytes\<close>).\<close>

datatype raw = Str string | Bytes bytes

datatype pyexn =
    JSONDecodeError
  | UnicodeDecodeError
  | AttributeError
  | KeyError
  | TypeError

text \<open>
  The outcome of the library call \<^verbatim>\<open>json.loads(raw)\<close>, which is not code of this
  repository: it is an input of the handler, beside the raw message it was computed from.
\<close>

datatype loads_result = Loaded json | LoadsRaised pyexn

text \<open>
  One item of \<^verbatim>\<open>communicate.stream()\<close>: a dict with a \<^verbatim>\<open>"type"\<close> and, for audio, a
  \<^verbatim>\<open>"data"\<close> entry. The collaborator yields finitely many chunks and then either ends
  or raises; a constructor that raises yields no chunk. \<open>failure\<close> is \<^verbatim>\<open>str(e)\<close>.
\<close>

datatype chunk = Chunk (ctype: string) (cdata: "bytes option")

datatype synthesis = Synthesis (chunks: "chunk list") (failure: "string option")

text \<open>
  The process environment: \<^verbatim>\<open>os.environ.get("EDGE_TTS_VOICE")\<close> and the synthesis
  collaborator \<^verbatim>\<open>edge_tts.Communicate(text, voice).stream()\<close>.
\<close>

record environment =
  EDGE_TTS_VOICE :: "string option"
  synthesize :: "json \<Rightarrow> string \<Rightarrow> synthesis"

text \<open>\<^verbatim>\<open>DEFAULT_VOICE = os.environ.get("EDGE_TTS_VOICE", "en-GB-RyanNeural")\<close> (line 14)\<close>

definition DEFAULT_VOICE :: "environment \<Rightarrow> string" where
  "DEFAULT_VOICE env =
     (case EDGE_TTS_VOICE env of None \<Rightarrow> ''en-GB-RyanNeural'' | Some v \<Rightarrow> v)"

text \<open>
  What the handler sends, tagged by the \<^verbatim>\<open>websocket.send\<close> that sends it: a JSON
  \<^verbatim>\<open>{"error": m}\<close>, the JSON health status, \<^verbatim>\<open>chunk["data"]\<close>, or \<^verbatim>\<open>b"END"\<close>.
\<close>

datatype response =
    ErrorMsg string
  | HealthStatus string string nat
  | AudioChunk bytes
  | EndOfStream

datatype frame = Text json | Binary bytes

text \<open>The message on the wire: \<^verbatim>\<open>json.dumps\<close> of a dict, or the bytes as they are.\<close>

fun wire :: "response \<Rightarrow> frame" where
  "wire (ErrorMsg m) = Text (JObj [(''error'', JStr m)])"
| "wire (HealthStatus s v n) =
     Text (JObj [(''status'', JStr s), (''version'', JStr v), (''connections'', JNum (real n))])"
| "wire (AudioChunk d) = Binary d"
| "wire EndOfStream = Binary ''END''"

subsection \<open>Shared state (lines 49--53)\<close>

text \<open>
  A connection: its identity as an object, and \<^verbatim>\<open>str(websocket.remote_address)\<close>, the
  only use the handler makes of the address.
\<close>

record websocket =
  ws_id :: nat
  remote_address :: string

record server_state =
  connected_clients :: "websocket set"
  rate_limit_tracker :: tracker

definition init_state :: server_state where
  "init_state = \<lparr>connected_clients = {}, rate_limit_tracker = empty_tracker\<rparr>"

subsection \<open>One iteration of the message loop (lines 83--148)\<close>

text \<open>
  The result of one iteration: what was sent, the \<open>(text, voice)\<close> handed to
  \<^verbatim>\<open>edge_tts.Communicate\<close> if the iteration got that far, and the exception that left the
  loop body uncaught, if any.
\<close>

record result =
  sent :: "response list"
  forwarded :: "(json \<times> string) option"
  raised :: "pyexn option"

definition reply :: "response list \<Rightarrow> result" where
  "reply rs = \<lparr>sent = rs, forwarded = None, raised = None\<rparr>"

definition crash :: "pyexn \<Rightarrow> result" where
  "crash e = \<lparr>sent = [], forwarded = None, raised = Some e\<rparr>"

definition RATE_LIMIT_MESSAGE :: string where
  "RATE_LIMIT_MESSAGE = ''Rate limit exceeded. Try again later.''"

definition GUIDANCE_MESSAGE :: string where
  "GUIDANCE_MESSAGE =
     ''Send JSON with '' @ [CHR 0x27] @ ''text'' @ [CHR 0x27] @ '' field or a plain text string''"

text \<open>The decimal digits of a number, as an f-string prints it.\<close>

fun decimal :: "nat \<Rightarrow> string" where
  "decimal n =
     (if n < 10 then [''0123456789'' ! n]
      else decimal (n div 10) @ [''0123456789'' ! (n mod 10)])"

definition LENGTH_MESSAGE :: string where
  "LENGTH_MESSAGE =
     ''Text exceeds maximum length of '' @ decimal MAX_TEXT_LENGTH @ '' characters''"

text \<open>
  \<^verbatim>\<open>str.strip()\<close>: the code points below 256 that Python counts as whitespace.
\<close>

definition py_isspace :: "char \<Rightarrow> bool" where
  "py_isspace c =
     ((of_char c :: nat) \<in> {9, 10, 11, 12, 13, 28, 29, 30, 31, 32, 133, 160})"

definition strip :: "string \<Rightarrow> string" where
  "strip s = rev (dropWhile py_isspace (rev (dropWhile py_isspace s)))"

text \<open>Where the parse of lines 93--116 leaves the iteration.\<close>

datatype parsed =
    Health
  | Request json json
  | Guidance
  | Uncaught pyexn

text \<open>
  The \<^verbatim>\<open>except\<close> branch (lines 107--116): \<^verbatim>\<open>isinstance(raw, str) and raw.strip()\<close>.
\<close>

definition plain_fallback :: "string \<Rightarrow> raw \<Rightarrow> parsed" where
  "plain_fallback dv r =
     (case r of
        Str s \<Rightarrow> if strip s \<noteq> [] then Request (JStr (strip s)) (JStr dv) else Guidance
      | Bytes b \<Rightarrow> Guidance)"

text \<open>
  The \<^verbatim>\<open>try\<close> block (lines 93--106). \<^verbatim>\<open>msg.get\<close> exists on a dict only: on any other
  value it raises \<^verbatim>\<open>AttributeError\<close>, which the \<^verbatim>\<open>except\<close> clause does not name.
  \<^verbatim>\<open>msg["text"]\<close> raises \<^verbatim>\<open>KeyError\<close> when the key is absent.
\<close>

definition parse_request :: "string \<Rightarrow> raw \<Rightarrow> loads_result \<Rightarrow> parsed" where
  "parse_request dv r loaded =
     (case loaded of
        LoadsRaised e \<Rightarrow>
          if e \<in> {JSONDecodeError, KeyError, TypeError} then plain_fallback dv r
          else Uncaught e
      | Loaded msg \<Rightarrow>
          (case msg of
             JObj kv \<Rightarrow>
               if map_of kv ''command'' = Some (JStr ''health'') then Health
               else (case map_of kv ''text'' of
                       None \<Rightarrow> plain_fallback dv r
                     | Some text \<Rightarrow>
                         Request text
                           (case map_of kv ''voice'' of None \<Rightarrow> JStr dv | Some v \<Rightarrow> v))
           | _ \<Rightarrow> Uncaught AttributeError))"

text \<open>\<^verbatim>\<open>len(text)\<close>: defined on \<^verbatim>\<open>str\<close>, \<^verbatim>\<open>list\<close> and \<^verbatim>\<open>dict\<close>, a \<^verbatim>\<open>TypeError\<close> otherwise.\<close>

definition py_len :: "json \<Rightarrow> pyexn + nat" where
  "py_len v =
     (case v of
        JStr s \<Rightarrow> Inr (length s)
      | JArr xs \<Rightarrow> Inr (length xs)
      | JObj kv \<Rightarrow> Inr (length (remdups (map fst kv)))
      | _ \<Rightarrow> Inl TypeError)"

text \<open>
  Lines 127--129. \<^verbatim>\<open>voice not in ALLOWED_VOICES\<close> hashes \<open>voice\<close>: a list or a dict
  raises \<^verbatim>\<open>TypeError\<close>; any other value that is not a string of the set is replaced.
\<close>

definition validate_voice :: "string \<Rightarrow> json \<Rightarrow> pyexn + string" where
  "validate_voice dv voice =
     (case voice of
        JArr xs \<Rightarrow> Inl TypeError
      | JObj kv \<Rightarrow> Inl TypeError
      | JStr v \<Rightarrow> Inr (if v \<notin> ALLOWED_VOICES then dv else v)
      | _ \<Rightarrow> Inr dv)"

text \<open>
  Lines 137--140: each chunk of type \<^verbatim>\<open>"audio"\<close> is sent; \<^verbatim>\<open>chunk["data"]\<close> on a chunk
  without that entry raises \<^verbatim>\<open>KeyError('data')\<close>, whose \<^verbatim>\<open>str\<close> is \<^verbatim>\<open>'data'\<close>.
\<close>

fun stream_chunks :: "chunk list \<Rightarrow> response list \<times> string option" where
  "stream_chunks [] = ([], None)"
| "stream_chunks (c # cs) =
     (if ctype c = ''audio''
      then (case cdata c of
              None \<Rightarrow> ([], Some ([CHR 0x27] @ ''data'' @ [CHR 0x27]))
            | Some d \<Rightarrow>
                (case stream_chunks cs of (rs, e) \<Rightarrow> (AudioChunk d # rs, e)))
      else stream_chunks cs)"

text \<open>
  Lines 134--148: the \<^verbatim>\<open>try\<close> around the stream. An exception raised while reading a
  chunk ends the loop before the collaborator's own end is reached.
\<close>

definition stream_tts :: "synthesis \<Rightarrow> response list" where
  "stream_tts syn =
     (case stream_chunks (chunks syn) of
        (rs, Some e) \<Rightarrow> rs @ [ErrorMsg (''TTS failed: '' @ e), EndOfStream]
      | (rs, None) \<Rightarrow>
          (case failure syn of
             None \<Rightarrow> rs @ [EndOfStream]
           | Some e \<Rightarrow> rs @ [ErrorMsg (''TTS failed: '' @ e), EndOfStream]))"

text \<open>
  Lines 118--148, none of it inside the parse's \<^verbatim>\<open>try\<close>: an exception of \<^verbatim>\<open>len(text)\<close>,
  of the membership test or of \<^verbatim>\<open>text[:80]\<close> (a dict cannot be sliced: \<^verbatim>\<open>TypeError\<close>,
  from Python 3.12 on \<^verbatim>\<open>KeyError\<close>) leaves the loop body.
\<close>

definition handle_request :: "environment \<Rightarrow> json \<Rightarrow> json \<Rightarrow> result" where
  "handle_request env text voice =
     (case py_len text of
        Inl e \<Rightarrow> crash e
      | Inr n \<Rightarrow>
          if n > MAX_TEXT_LENGTH then reply [ErrorMsg LENGTH_MESSAGE]
          else (case validate_voice (DEFAULT_VOICE env) voice of
                  Inl e \<Rightarrow> crash e
                | Inr v \<Rightarrow>
                    (case text of
                       JObj kv \<Rightarrow> crash TypeError
                     | _ \<Rightarrow> \<lparr>sent = stream_tts (synthesize env text v),
                              forwarded = Some (text, v), raised = None\<rparr>)))"

definition handle_message ::
  "environment \<Rightarrow> server_state \<Rightarrow> websocket \<Rightarrow> real \<Rightarrow> raw \<Rightarrow> loads_result
     \<Rightarrow> result \<times> server_state" where
  "handle_message env st ws now r loaded =
     (case check_rate_limit (remote_address ws) now (rate_limit_tracker st) of
        (allowed, tr) \<Rightarrow>
          (let st1 = st\<lparr>rate_limit_tracker := tr\<rparr>
           in if \<not> allowed then (reply [ErrorMsg RATE_LIMIT_MESSAGE], st1)
              else (case parse_request (DEFAULT_VOICE env) r loaded of
                      Health \<Rightarrow>
                        (reply [HealthStatus ''ok'' SERVER_VERSION
                                  (card (connected_clients st1))], st1)
                    | Guidance \<Rightarrow> (reply [ErrorMsg GUIDANCE_MESSAGE], st1)
                    | Uncaught e \<Rightarrow> (crash e, st1)
                    | Request text voice \<Rightarrow> (handle_request env text voice, st1))))"

subsection \<open>The connection handler (lines 71--157)\<close>

text \<open>Lines 75--80: admission. The refusal returns before the \<^verbatim>\<open>try\<close>.\<close>

definition connect :: "server_state \<Rightarrow> websocket \<Rightarrow> (nat \<times> string) option \<times> server_state" where
  "connect st ws =
     (if card (connected_clients st) \<ge> MAX_CONNECTIONS
      then (Some (1013, ''Maximum connections reached''), st)
      else (None, st\<lparr>connected_clients := insert ws (connected_clients st)\<rparr>))"

text \<open>Lines 152--156: the \<^verbatim>\<open>finally\<close> block.\<close>

definition cleanup :: "server_state \<Rightarrow> websocket \<Rightarrow> server_state" where
  "cleanup st ws =
     st\<lparr>connected_clients := connected_clients st - {ws},
        rate_limit_tracker := (rate_limit_tracker st)(remote_address ws := None)\<rparr>"

text \<open>
  The \<^verbatim>\<open>async for\<close> over the messages of one connection, each with the clock reading
  and the \<^verbatim>\<open>json.loads\<close> outcome of its iteration. The list ends when the peer closes.
\<close>

fun session_loop ::
  "environment \<Rightarrow> server_state \<Rightarrow> websocket \<Rightarrow> (real \<times> raw \<times> loads_result) list
     \<Rightarrow> response list \<times> pyexn option \<times> server_state" where
  "session_loop env st ws [] = ([], None, st)"
| "session_loop env st ws ((now, r, loaded) # ms) =
     (case handle_message env st ws now r loaded of
        (res, st1) \<Rightarrow>
          (case raised res of
             Some e \<Rightarrow> (sent res, Some e, st1)
           | None \<Rightarrow>
               (case session_loop env st1 ws ms of
                  (rs, e, st2) \<Rightarrow> (sent res @ rs, e, st2))))"

text \<open>
  What happens on the shared state, one atomic step at a time (the handler yields only
  at an \<^verbatim>\<open>await\<close>, and none stands between a check and its update): a connection
  attempt, one message of an admitted connection, or the end of an admitted connection.
  An uncaught exception ends the connection through the \<^verbatim>\<open>finally\<close> block.
\<close>

datatype event =
    Connect websocket
  | Message websocket real raw loads_result
  | Disconnect websocket

fun step :: "environment \<Rightarrow> server_state \<Rightarrow> event \<Rightarrow> server_state" where
  "step env st (Connect ws) = snd (connect st ws)"
| "step env st (Message ws now r loaded) =
     (if ws \<in> connected_clients st
      then (case handle_message env st ws now r loaded of
              (res, st1) \<Rightarrow> if raised res = None then st1 else cleanup st1 ws)
      else st)"
| "step env st (Disconnect ws) =
     (if ws \<in> connected_clients st then cleanup st ws else st)"

definition run :: "environment \<Rightarrow> event list \<Rightarrow> server_state" where
  "run env evs = foldl (step env) init_state evs"

subsection \<open>Shutdown (lines 177--189)\<close>

text \<open>
  The effects of \<^verbatim>\<open>main\<close> after \<^verbatim>\<open>await stop\<close>, in program order. \<open>clients\<close> is
  \<^verbatim>\<open>list(connected_clients)\<close>, the snapshot in the order the set yields it.
\<close>

datatype action =
    CreateCloseTask websocket nat string
  | WaitTasks nat
  | ServerClose
  | WaitClosed nat

definition shutdown :: "websocket list \<Rightarrow> action list" where
  "shutdown clients =
     (let close_tasks = map (\<lambda>ws. CreateCloseTask ws 1001 ''Server shutting down'') clients
      in close_tasks
         @ (if close_tasks \<noteq> [] then [WaitTasks SHUTDOWN_TIMEOUT] else [])
         @ [ServerClose, WaitClosed SHUTDOWN_TIMEOUT])"

text \<open>
  The listener accepts connections until \<^verbatim>\<open>server.close()\<close> has run: whether it still
  accepts after the actions \<open>acts\<close>.
\<close>

definition accepting :: "action list \<Rightarrow> bool" where
  "accepting acts = (ServerClose \<notin> set acts)"

text \<open>The registry bound: at most \<open>MAX_CONNECTIONS\<close> registered connections.\<close>

definition within_limit :: "server_state \<Rightarrow> bool" where
  "within_limit st =
     (finite (connected_clients st) \<and> card (connected_clients st) \<le> MAX_CONNECTIONS)"

text \<open>A JSON string literal without escapes: the text between double quotes.\<close>

definition quoted :: "string \<Rightarrow> string" where
  "quoted s = [CHR 0x22] @ s @ [CHR 0x22]"

text \<open>
  A value of the \<^verbatim>\<open>"voice"\<close> key that can be hashed and is not a string of the
  allow-set.
\<close>

definition outside_allow_set :: "json \<Rightarrow> bool" where
  "outside_allow_set voice =
     (case voice of
        JArr xs \<Rightarrow> False
      | JObj kv \<Rightarrow> False
      | JStr v \<Rightarrow> v \<notin> ALLOWED_VOICES
      | _ \<Rightarrow> True)"

section \<open>Properties\<close>

subsection \<open>Rounding to the nearest double\<close>

lemma round_half_even_le: "y \<le> of_int m \<Longrightarrow> round_half_even y \<le> m"
proof -
  assume a: "y \<le> of_int m"
  have f: "\<lfloor>y\<rfloor> \<le> m" using a by (simp add: floor_le_iff)
  show ?thesis
  proof (cases "\<lfloor>y\<rfloor> = m")
    case True
    then have "y = of_int m" using a by (metis of_int_floor_le order_antisym)
    then show ?thesis by (simp add: round_half_even_def)
  next
    case False
    then have "\<lfloor>y\<rfloor> + 1 \<le> m" using f by simp
    then show ?thesis by (auto simp: round_half_even_def Let_def)
  qed
qed

lemma round_half_even_ge: "of_int m \<le> y \<Longrightarrow> m \<le> round_half_even y"
proof -
  assume a: "of_int m \<le> y"
  have "m \<le> \<lfloor>y\<rfloor>" using a by (simp add: le_floor_iff)
  then show ?thesis by (auto simp: round_half_even_def Let_def)
qed

lemma round_half_even_less_even:
  assumes "even N"
  shows "round_half_even y < N \<longleftrightarrow> y < of_int N - 1 / 2"
proof
  assume l: "y < of_int N - 1 / 2"
  then have "y < of_int N" by simp
  then have "\<lfloor>y\<rfloor> < N" by (simp add: floor_less_iff)
  then have f: "\<lfloor>y\<rfloor> \<le> N - 1" by simp
  show "round_half_even y < N"
  proof (cases "\<lfloor>y\<rfloor> = N - 1")
    case True
    then have "y - of_int \<lfloor>y\<rfloor> < 1 / 2" using l by simp
    then show ?thesis using True by (simp add: round_half_even_def Let_def)
  next
    case False
    then have "\<lfloor>y\<rfloor> + 1 < N" using f by simp
    then show ?thesis by (auto simp: round_half_even_def Let_def)
  qed
next
  assume r: "round_half_even y < N"
  show "y < of_int N - 1 / 2"
  proof (rule ccontr)
    assume "\<not> y < of_int N - 1 / 2"
    then have g: "of_int N - 1 / 2 \<le> y" by simp
    then have f: "N - 1 \<le> \<lfloor>y\<rfloor>" by (simp add: le_floor_iff)
    show False
    proof (cases "\<lfloor>y\<rfloor> = N - 1")
      case True
      then have d: "1 / 2 \<le> y - of_int \<lfloor>y\<rfloor>" using g by simp
      have odd: "\<not> even \<lfloor>y\<rfloor>" using True assms by simp
      have "round_half_even y = N"
        using d odd True by (auto simp: round_half_even_def Let_def)
      then show False using r by simp
    next
      case False
      then have "N \<le> \<lfloor>y\<rfloor>" using f by simp
      then have "N \<le> round_half_even y"
        by (auto simp: round_half_even_def Let_def)
      then show False using r by simp
    qed
  qed
qed

lemma round_double_nonpos: "x \<le> 0 \<Longrightarrow> round_double x \<le> 0"
proof -
  assume a: "x \<le> 0"
  let ?s = "(2::real) powi double_exponent x"
  have s: "0 < ?s" by simp
  have "x / ?s \<le> of_int 0" using a s by (simp add: divide_nonpos_pos)
  then have "round_half_even (x / ?s) \<le> 0" by (rule round_half_even_le)
  then have "of_int (round_half_even (x / ?s)) * ?s \<le> 0"
    using s by (simp add: mult_le_0_iff)
  then show ?thesis by (simp add: round_double_def Let_def)
qed

lemma double_exponent_small:
  assumes "0 < x" "x < 32"
  shows "double_exponent x \<le> - 48"
proof -
  have "\<bar>x\<bar> * 2 ^ 1074 < 2 ^ 5 * 2 ^ 1074"
    using assms by (intro mult_strict_right_mono zero_less_power) simp_all
  also have "\<dots> = (2::real) ^ (5 + 1074)" by (rule power_add [symmetric])
  also have "(5::nat) + 1074 = 1079" by simp
  finally have "\<bar>x\<bar> * 2 ^ 1074 < of_int (2 ^ 1079)"
    by (simp only: of_int_power of_int_numeral)
  then have "\<lfloor>\<bar>x\<bar> * 2 ^ 1074\<rfloor> < 2 ^ 1079" by (simp only: floor_less_iff)
  then have "bitlen \<lfloor>\<bar>x\<bar> * 2 ^ 1074\<rfloor> \<le> 1079"
    by (simp only: bitlen_le_iff_power) simp
  then show ?thesis by (simp add: double_exponent_def)
qed

lemma round_double_small:
  assumes "x < 32"
  shows "round_double x \<le> 32"
proof (cases "x \<le> 0")
  case True
  then show ?thesis using round_double_nonpos [of x] by simp
next
  case False
  then have pos: "0 < x" by simp
  let ?e = "double_exponent x"
  let ?s = "(2::real) powi ?e"
  have e: "?e \<le> - 48" using double_exponent_small [OF pos assms] .
  have s: "0 < ?s" by simp
  have q: "32 / ?s = of_int (2 ^ nat (5 - ?e))"
  proof -
    have "32 / ?s = 2 powi 5 / 2 powi ?e" by simp
    also have "\<dots> = 2 powi (5 - ?e)" by (simp add: power_int_diff)
    also have "\<dots> = 2 ^ nat (5 - ?e)" using e by (simp add: power_int_def)
    finally show ?thesis by simp
  qed
  have "x / ?s \<le> 32 / ?s" using assms s by (intro divide_right_mono) simp_all
  then have "round_half_even (x / ?s) \<le> 2 ^ nat (5 - ?e)"
    using q round_half_even_le by metis
  then have "of_int (round_half_even (x / ?s)) \<le> (of_int (2 ^ nat (5 - ?e)) :: real)"
    by (simp only: of_int_le_iff)
  then have "of_int (round_half_even (x / ?s)) * ?s \<le> of_int (2 ^ nat (5 - ?e)) * ?s"
    using s by (intro mult_right_mono) simp_all
  also have "\<dots> = 32" using q s by (metis nonzero_divide_eq_eq less_irrefl)
  finally show ?thesis by (simp add: round_double_def Let_def)
qed

lemma round_double_large:
  assumes "64 \<le> x"
  shows "64 \<le> round_double x"
proof -
  let ?n = "\<lfloor>\<bar>x\<bar> * 2 ^ 1074\<rfloor>"
  let ?b = "bitlen ?n"
  let ?e = "double_exponent x"
  let ?s = "(2::real) powi ?e"
  have "(6::nat) + 1074 = 1080" by simp
  then have "(2::real) ^ 1080 = 2 ^ 6 * 2 ^ 1074" by (simp only: power_add [symmetric])
  also have "\<dots> \<le> \<bar>x\<bar> * 2 ^ 1074"
    using assms by (intro mult_right_mono zero_le_power) simp_all
  finally have "of_int (2 ^ 1080) \<le> \<bar>x\<bar> * 2 ^ 1074"
    by (simp only: of_int_power of_int_numeral)
  then have n: "2 ^ 1080 \<le> ?n" by (simp only: le_floor_iff)
  then have b: "1081 \<le> ?b" by (simp only: bitlen_ge_iff_power) simp
  have e: "?e = ?b - 1127" using b by (simp add: double_exponent_def)
  have npos: "0 < ?n" using n by (smt (verit) zero_less_power)
  have "2 ^ nat (?b - 1) \<le> ?n" using bitlen_bounds [OF npos] by simp
  then have "(of_int (2 ^ nat (?b - 1)) :: real) \<le> of_int ?n" by (simp only: of_int_le_iff)
  also have "\<dots> \<le> \<bar>x\<bar> * 2 ^ 1074" by (rule of_int_floor_le)
  also have "\<dots> = x * 2 ^ 1074" using assms by simp
  finally have low: "(2::real) ^ nat (?b - 1) \<le> x * 2 ^ 1074" by simp
  have s: "0 < ?s" by simp
  have bs: "2 powi 52 * ?s = (2::real) ^ nat (?b - 1) / 2 ^ 1074"
  proof -
    have "(2::real) powi 52 * 2 powi (?b - 1127) = 2 powi (52 + (?b - 1127))"
      by (rule power_int_add [symmetric]) simp
    also have "52 + (?b - 1127) = ?b - 1 - 1074" by simp
    also have "(2::real) powi (?b - 1 - 1074) = 2 powi (?b - 1) / 2 powi 1074"
      by (rule power_int_diff) simp
    also have "(2::real) powi (?b - 1) = 2 ^ nat (?b - 1)"
      using b by (simp add: power_int_def)
    also have "(2::real) powi 1074 = 2 ^ 1074" by (simp only: power_int_numeral)
    finally show ?thesis by (simp only: e)
  qed
  have p52: "(2::real) powi 52 = of_int (2 ^ 52)" by simp
  have p1074: "(0::real) < 2 ^ 1074" by (rule zero_less_power) simp
  have "(2::real) ^ nat (?b - 1) / 2 ^ 1074 \<le> x"
    using low p1074 by (simp only: pos_divide_le_eq)
  then have "2 powi 52 * ?s \<le> x" by (simp only: bs)
  then have "2 powi 52 \<le> x / ?s" using s by (simp only: pos_le_divide_eq)
  then have "of_int (2 ^ 52) \<le> x / ?s" by (simp only: p52)
  then have "2 ^ 52 \<le> round_half_even (x / ?s)" by (rule round_half_even_ge)
  then have "(of_int (2 ^ 52) :: real) \<le> of_int (round_half_even (x / ?s))"
    by (simp only: of_int_le_iff)
  then have "of_int (2 ^ 52) * ?s \<le> of_int (round_half_even (x / ?s)) * ?s"
    using s by (intro mult_right_mono) simp_all
  moreover have "64 \<le> of_int (2 ^ 52) * ?s"
  proof -
    have "(64::real) = 2 powi 6" by simp
    also have "\<dots> \<le> 2 powi (52 + (?b - 1127))"
      using b by (intro power_int_increasing) simp_all
    also have "\<dots> = 2 powi 52 * 2 powi (?b - 1127)"
      by (rule power_int_add) simp
    finally show ?thesis by (simp only: e p52)
  qed
  ultimately have "64 \<le> of_int (round_half_even (x / ?s)) * ?s"
    by (rule order_trans [rotated])
  moreover have "round_double x = of_int (round_half_even (x / ?s)) * ?s"
    by (simp add: round_double_def Let_def)
  ultimately show ?thesis by (simp only:)
qed

lemma double_exponent_mid:
  assumes "32 \<le> x" "x < 64"
  shows "double_exponent x = - 47"
proof -
  let ?n = "\<lfloor>\<bar>x\<bar> * 2 ^ 1074\<rfloor>"
  have "\<bar>x\<bar> * 2 ^ 1074 < 2 ^ 6 * 2 ^ 1074"
    using assms by (intro mult_strict_right_mono zero_less_power) simp_all
  also have "\<dots> = (2::real) ^ (6 + 1074)" by (rule power_add [symmetric])
  also have "(6::nat) + 1074 = 1080" by simp
  finally have "\<bar>x\<bar> * 2 ^ 1074 < of_int (2 ^ 1080)"
    by (simp only: of_int_power of_int_numeral)
  then have "?n < 2 ^ 1080" by (simp only: floor_less_iff)
  then have up: "bitlen ?n \<le> 1080" by (simp only: bitlen_le_iff_power) simp
  have "(5::nat) + 1074 = 1079" by simp
  then have "(2::real) ^ 1079 = 2 ^ 5 * 2 ^ 1074" by (simp only: power_add [symmetric])
  also have "\<dots> \<le> \<bar>x\<bar> * 2 ^ 1074"
    using assms by (intro mult_right_mono zero_le_power) simp_all
  finally have "of_int (2 ^ 1079) \<le> \<bar>x\<bar> * 2 ^ 1074"
    by (simp only: of_int_power of_int_numeral)
  then have "2 ^ 1079 \<le> ?n" by (simp only: le_floor_iff)
  then have "1080 \<le> bitlen ?n" by (simp only: bitlen_ge_iff_power) simp
  then have "bitlen ?n = 1080" using up by simp
  then show ?thesis by (simp add: double_exponent_def)
qed

lemma round_double_mid:
  assumes "32 \<le> x" "x < 64"
  shows "round_double x = of_int (round_half_even (x * 2 ^ 47)) / 2 ^ 47"
proof -
  have "(2::real) powi (- 47) = 1 / 2 ^ 47" by (simp add: power_int_minus field_simps)
  then show ?thesis
    by (simp add: round_double_def Let_def double_exponent_mid [OF assms])
qed

lemma round_double_less_60: "round_double x < 60 \<longleftrightarrow> x < 60 - 1 / 2 ^ 48"
proof -
  consider "x < 32" | "32 \<le> x" "x < 64" | "64 \<le> x" by linarith
  then show ?thesis
  proof cases
    case 1
    then show ?thesis using round_double_small [of x] by simp
  next
    case 3
    then show ?thesis using round_double_large [of x] by simp
  next
    case 2
    let ?N = "60 * 2 ^ 47 :: int"
    have ev: "even ?N" by simp
    have "round_double x < 60
        \<longleftrightarrow> of_int (round_half_even (x * 2 ^ 47)) < (60 * 2 ^ 47 :: real)"
      by (simp add: round_double_mid [OF 2] divide_less_eq)
    also have "\<dots> \<longleftrightarrow> round_half_even (x * 2 ^ 47) < ?N"
      by (metis of_int_less_iff of_int_mult of_int_numeral of_int_power)
    also have "\<dots> \<longleftrightarrow> x * 2 ^ 47 < of_int ?N - 1 / 2"
      by (rule round_half_even_less_even [OF ev])
    also have "\<dots> \<longleftrightarrow> x < 60 - 1 / 2 ^ 48"
      by (simp add: field_simps)
    finally show ?thesis .
  qed
qed

lemma round_double_less_window:
  "round_double x < RATE_LIMIT_WINDOW \<longleftrightarrow> x < RATE_LIMIT_WINDOW - 1 / 2 ^ 48"
  by (simp add: RATE_LIMIT_WINDOW_def round_double_less_60)

lemma window_le_round_double:
  "RATE_LIMIT_WINDOW \<le> round_double x \<longleftrightarrow> RATE_LIMIT_WINDOW - 1 / 2 ^ 48 \<le> x"
  using round_double_less_window [of x] by auto

lemma round_double_less_window_mono:
  "x \<le> y \<Longrightarrow> round_double y < RATE_LIMIT_WINDOW \<Longrightarrow> round_double x < RATE_LIMIT_WINDOW"
  by (simp add: round_double_less_window)

lemma window_le_round_double_mono:
  "x \<le> y \<Longrightarrow> RATE_LIMIT_WINDOW \<le> round_double x \<Longrightarrow> RATE_LIMIT_WINDOW \<le> round_double y"
  by (simp add: window_le_round_double)

text \<open>
  The doubles nearest to 60.3 and 0.3 are less than 60 apart, and their difference
  rounds to 60: a timestamp stored at the one is pruned at the other.
\<close>

lemma rounded_age_example:
  "4243235273913139 / 2 ^ 46 - 5404319552844595 / 2 ^ 54 < RATE_LIMIT_WINDOW
   \<and> \<not> round_double (4243235273913139 / 2 ^ 46 - 5404319552844595 / 2 ^ 54)
        < RATE_LIMIT_WINDOW"
  by (simp add: round_double_less_60 RATE_LIMIT_WINDOW_def)

subsection \<open>Rate limiter\<close>

lemma check_rate_limit_fst:
  "fst (check_rate_limit key now tr) =
     (length (filter (\<lambda>t. round_double (now - t) < RATE_LIMIT_WINDOW) (tracker_get tr key))
        < RATE_LIMIT_MAX_REQUESTS)"
  by (simp add: check_rate_limit_def Let_def)

lemma check_rate_limit_stored:
  "tracker_get (snd (check_rate_limit key now tr)) key =
     filter (\<lambda>t. round_double (now - t) < RATE_LIMIT_WINDOW) (tracker_get tr key)
       @ (if fst (check_rate_limit key now tr) then [now] else [])"
  by (simp add: check_rate_limit_def Let_def tracker_get_def)

lemma check_rate_limit_other:
  "k \<noteq> key \<Longrightarrow> snd (check_rate_limit key now tr) k = tr k"
  by (simp add: check_rate_limit_def Let_def)

lemma check_all_admits:
  assumes "tracker_get tr key = ts"
    and "length ts + length nows \<le> RATE_LIMIT_MAX_REQUESTS"
    and "\<forall>b \<in> set nows. \<forall>a \<in> set ts \<union> set nows.
           round_double (b - a) < RATE_LIMIT_WINDOW"
  shows "fst (check_all key nows tr) = replicate (length nows) True
       \<and> tracker_get (snd (check_all key nows tr)) key = ts @ nows"
  using assms
proof (induction nows arbitrary: tr ts)
  case Nil
  then show ?case by simp
next
  case (Cons now nows)
  let ?tr1 = "snd (check_rate_limit key now tr)"
  have keep: "filter (\<lambda>t. round_double (now - t) < RATE_LIMIT_WINDOW) ts = ts"
    using Cons.prems(3) by (auto simp: filter_id_conv)
  have ok: "fst (check_rate_limit key now tr)"
    using Cons.prems(1,2) keep by (simp add: check_rate_limit_fst)
  have stored: "tracker_get ?tr1 key = ts @ [now]"
    using Cons.prems(1) keep ok by (simp add: check_rate_limit_stored)
  have len: "length (ts @ [now]) + length nows \<le> RATE_LIMIT_MAX_REQUESTS"
    using Cons.prems(2) by simp
  have win: "\<forall>b \<in> set nows. \<forall>a \<in> set (ts @ [now]) \<union> set nows.
      round_double (b - a) < RATE_LIMIT_WINDOW"
    using Cons.prems(3) by auto
  from Cons.IH [OF stored len win]
  have ih: "fst (check_all key nows ?tr1) = replicate (length nows) True"
    "tracker_get (snd (check_all key nows ?tr1)) key = (ts @ [now]) @ nows"
    by simp_all
  show ?case
    using ok ih by (simp add: split_beta)
qed

lemma sorted_le_last:
  fixes xs :: "real list"
  assumes "sorted xs" "b \<in> set xs"
  shows "b \<le> last xs"
proof -
  obtain i where i: "i < length xs" "xs ! i = b"
    using assms(2) by (auto simp: in_set_conv_nth)
  then have "xs ! i \<le> xs ! (length xs - 1)"
    using assms(1) by (intro sorted_nth_mono) auto
  moreover have "xs \<noteq> []" using assms(2) by auto
  ultimately show ?thesis using i by (simp add: last_conv_nth)
qed

lemma sorted_hd_le:
  fixes xs :: "real list"
  assumes "sorted xs" "a \<in> set xs"
  shows "hd xs \<le> a"
  using assms by (cases xs) auto

lemma sorted_span:
  fixes xs :: "real list"
  assumes "sorted xs" "a \<in> set xs" "b \<in> set xs"
  shows "b - a \<le> last xs - hd xs"
  using sorted_hd_le [OF assms(1,2)] sorted_le_last [OF assms(1,3)] by simp

text \<open>
  C1 (as amended). For one client key with no stored timestamps, requests
  \<open>1 .. RATE_LIMIT_MAX_REQUESTS\<close> made at non-decreasing clock readings \<open>nows\<close> are all
  admitted; a further request at \<open>t\<close>, whose distance from the first the code measures
  as less than \<open>RATE_LIMIT_WINDOW\<close>, is denied and the pruned list is stored back; a
  request at \<open>t'\<close>, when the code measures every stored timestamp as at least
  \<open>RATE_LIMIT_WINDOW\<close> old, is admitted again. The measure is the double subtraction
  \<^verbatim>\<open>now - t\<close>. The decision is the stated algorithm with the prune taken as the code
  takes it: a timestamp is discarded when that rounded age is at least
  \<open>RATE_LIMIT_WINDOW\<close>, which is the case exactly when
  \<open>t \<le> now - (RATE_LIMIT_WINDOW - 1 / 2 ^ 48)\<close>; so a timestamp exactly
  \<open>RATE_LIMIT_WINDOW\<close> old is discarded too.
\<close>

theorem rate_limit_sliding_window:
  assumes "sorted nows"
    and "length nows = RATE_LIMIT_MAX_REQUESTS"
    and "tracker_get tr key = []"
    and "last nows \<le> t"
    and "round_double (t - hd nows) < RATE_LIMIT_WINDOW"
    and "RATE_LIMIT_WINDOW \<le> round_double (t' - last nows)"
  shows "fst (check_all key nows tr) = replicate RATE_LIMIT_MAX_REQUESTS True
       \<and> check_rate_limit key t (snd (check_all key nows tr))
           = (False, (snd (check_all key nows tr))(key \<mapsto> nows))
       \<and> fst (check_rate_limit key t'
                (snd (check_rate_limit key t (snd (check_all key nows tr)))))
       \<and> check_rate_limit key now tr0
           = (let kept = filter (\<lambda>u. \<not> RATE_LIMIT_WINDOW \<le> round_double (now - u))
                           (tracker_get tr0 key)
              in if length kept \<ge> RATE_LIMIT_MAX_REQUESTS
                 then (False, tr0(key \<mapsto> kept))
                 else (True, tr0(key \<mapsto> kept @ [now])))
       \<and> (RATE_LIMIT_WINDOW \<le> round_double (now - u))
           = (u \<le> now - (RATE_LIMIT_WINDOW - 1 / 2 ^ 48))"
proof -
  let ?tr1 = "snd (check_all key nows tr)"
  have ne: "nows \<noteq> []"
    using assms(2) by (auto simp: RATE_LIMIT_MAX_REQUESTS_def)
  have span: "\<forall>b \<in> set nows. \<forall>a \<in> set [] \<union> set nows.
      round_double (b - a) < RATE_LIMIT_WINDOW"
  proof (intro ballI)
    fix b a assume "b \<in> set nows" "a \<in> set [] \<union> set nows"
    then have "b - a \<le> last nows - hd nows"
      using sorted_span [OF assms(1)] by simp
    then have "b - a \<le> t - hd nows"
      using assms(4) by simp
    then show "round_double (b - a) < RATE_LIMIT_WINDOW"
      using assms(5) by (rule round_double_less_window_mono)
  qed
  have len: "length ([]::real list) + length nows \<le> RATE_LIMIT_MAX_REQUESTS"
    using assms(2) by simp
  from check_all_admits [OF assms(3) len span]
  have first: "fst (check_all key nows tr) = replicate RATE_LIMIT_MAX_REQUESTS True"
    and stored: "tracker_get ?tr1 key = nows"
    using assms(2) by simp_all
  have keep: "filter (\<lambda>a. round_double (t - a) < RATE_LIMIT_WINDOW) nows = nows"
  proof -
    have "round_double (t - a) < RATE_LIMIT_WINDOW" if "a \<in> set nows" for a
    proof -
      have "t - a \<le> t - hd nows"
        using sorted_hd_le [OF assms(1) that] by simp
      then show ?thesis using assms(5) by (rule round_double_less_window_mono)
    qed
    then show ?thesis by (simp add: filter_id_conv)
  qed
  have denied: "check_rate_limit key t ?tr1 = (False, ?tr1(key \<mapsto> nows))"
    using stored keep assms(2) by (simp add: check_rate_limit_def Let_def)
  have drop: "filter (\<lambda>a. round_double (t' - a) < RATE_LIMIT_WINDOW) nows = []"
  proof -
    have "\<not> round_double (t' - a) < RATE_LIMIT_WINDOW" if "a \<in> set nows" for a
    proof -
      have "t' - last nows \<le> t' - a"
        using sorted_le_last [OF assms(1) that] by simp
      then have "RATE_LIMIT_WINDOW \<le> round_double (t' - a)"
        using assms(6) by (rule window_le_round_double_mono)
      then show ?thesis by simp
    qed
    then show ?thesis by (simp add: filter_empty_conv)
  qed
  have again: "fst (check_rate_limit key t' (snd (check_rate_limit key t ?tr1)))"
    using drop by (simp add: denied check_rate_limit_fst tracker_get_def
        RATE_LIMIT_MAX_REQUESTS_def)
  have algo: "check_rate_limit key now tr0
           = (let kept = filter (\<lambda>u. \<not> RATE_LIMIT_WINDOW \<le> round_double (now - u))
                           (tracker_get tr0 key)
              in if length kept \<ge> RATE_LIMIT_MAX_REQUESTS
                 then (False, tr0(key \<mapsto> kept))
                 else (True, tr0(key \<mapsto> kept @ [now])))"
    by (simp add: check_rate_limit_def not_le)
  have exact: "(RATE_LIMIT_WINDOW \<le> round_double (now - u))
           = (u \<le> now - (RATE_LIMIT_WINDOW - 1 / 2 ^ 48))"
    by (simp only: window_le_round_double) linarith
  show ?thesis using first denied again algo exact by blast
qed

theorem rate_limit_sliding_window_witness:
  "fst (check_all ''k'' [0, 1, 2, 3, 4, 5, 6, 7, 8, 9, 10, 11, 12, 13, 14, 15, 16, 17, 18, 19] empty_tracker) = replicate 20 True
   \<and> \<not> fst (check_rate_limit ''k'' 30 (snd (check_all ''k'' [0, 1, 2, 3, 4, 5, 6, 7, 8, 9, 10, 11, 12, 13, 14, 15, 16, 17, 18, 19] empty_tracker)))
   \<and> fst (check_rate_limit ''k'' 80
        (snd (check_rate_limit ''k'' 30 (snd (check_all ''k'' [0, 1, 2, 3, 4, 5, 6, 7, 8, 9, 10, 11, 12, 13, 14, 15, 16, 17, 18, 19] empty_tracker)))))"
proof -
  have h1: "sorted ([0, 1, 2, 3, 4, 5, 6, 7, 8, 9, 10, 11, 12, 13, 14, 15, 16, 17, 18, 19] :: real list)" by simp
  have h2: "length ([0, 1, 2, 3, 4, 5, 6, 7, 8, 9, 10, 11, 12, 13, 14, 15, 16, 17, 18, 19] :: real list) = RATE_LIMIT_MAX_REQUESTS"
    by (simp add: RATE_LIMIT_MAX_REQUESTS_def)
  have h3: "tracker_get empty_tracker ''k'' = []"
    by (simp add: tracker_get_def empty_tracker_def)
  have h4: "last ([0, 1, 2, 3, 4, 5, 6, 7, 8, 9, 10, 11, 12, 13, 14, 15, 16, 17, 18, 19] :: real list) \<le> 30" by simp
  have h5: "round_double (30 - hd ([0, 1, 2, 3, 4, 5, 6, 7, 8, 9, 10, 11, 12, 13, 14, 15, 16, 17, 18, 19] :: real list)) < RATE_LIMIT_WINDOW"
    by (simp add: round_double_less_window) (simp add: RATE_LIMIT_WINDOW_def)
  have h6: "RATE_LIMIT_WINDOW \<le> round_double (80 - last ([0, 1, 2, 3, 4, 5, 6, 7, 8, 9, 10, 11, 12, 13, 14, 15, 16, 17, 18, 19] :: real list))"
    by (simp add: window_le_round_double) (simp add: RATE_LIMIT_WINDOW_def)
  note r = rate_limit_sliding_window [OF h1 h2 h3 h4 h5 h6]
  have a: "fst (check_all ''k'' [0, 1, 2, 3, 4, 5, 6, 7, 8, 9, 10, 11, 12, 13, 14, 15, 16, 17, 18, 19] empty_tracker) = replicate 20 True"
    using r [THEN conjunct1] by (simp only: RATE_LIMIT_MAX_REQUESTS_def)
  have b: "\<not> fst (check_rate_limit ''k'' 30 (snd (check_all ''k'' [0, 1, 2, 3, 4, 5, 6, 7, 8, 9, 10, 11, 12, 13, 14, 15, 16, 17, 18, 19] empty_tracker)))"
    using r [THEN conjunct2, THEN conjunct1] by (simp only: fst_conv simp_thms)
  have c: "fst (check_rate_limit ''k'' 80
        (snd (check_rate_limit ''k'' 30 (snd (check_all ''k'' [0, 1, 2, 3, 4, 5, 6, 7, 8, 9, 10, 11, 12, 13, 14, 15, 16, 17, 18, 19] empty_tracker)))))"
    using r [THEN conjunct2, THEN conjunct2, THEN conjunct1] .
  show ?thesis using a b c by blast
qed

text \<open>
  C1 as stated fails on the boundary. Twenty requests at seconds \<open>0 .. 19\<close> are admitted;
  at second \<open>60\<close> the timestamp \<open>0\<close> is not older than \<open>now - WINDOW = 0\<close>, so the
  algorithm as worded keeps it and denies, while the code discards it and admits. All
  these readings and their differences are doubles, so no rounding takes place.
\<close>

theorem rate_limit_boundary_counterexample:
  "fst (check_rate_limit ''k'' 60 (snd (check_all ''k'' [0, 1, 2, 3, 4, 5, 6, 7, 8, 9, 10, 11, 12, 13, 14, 15, 16, 17, 18, 19] empty_tracker)))
   \<and> \<not> fst (allow_as_specified ''k'' 60 (snd (check_all ''k'' [0, 1, 2, 3, 4, 5, 6, 7, 8, 9, 10, 11, 12, 13, 14, 15, 16, 17, 18, 19] empty_tracker)))"
  by (simp add: check_rate_limit_def allow_as_specified_def tracker_get_def
      empty_tracker_def round_double_less_60 RATE_LIMIT_WINDOW_def
      RATE_LIMIT_MAX_REQUESTS_def)

text \<open>
  Where rounding does take place: with the doubles nearest to 0.3 and 60.3 in the place
  of 0 and 60, the exact age of the first timestamp is less than \<open>RATE_LIMIT_WINDOW\<close>,
  its rounded age is not, and the request is admitted.
\<close>

lemma rounded_boundary_admitted:
  "fst (check_rate_limit ''k'' (4243235273913139 / 2 ^ 46)
     (snd (check_all ''k''
        [5404319552844595 / 2 ^ 54, 1, 2, 3, 4, 5, 6, 7, 8, 9, 10, 11, 12, 13, 14, 15, 16,
         17, 18, 19] empty_tracker)))"
  by (simp add: check_rate_limit_def tracker_get_def
      empty_tracker_def round_double_less_60 RATE_LIMIT_WINDOW_def
      RATE_LIMIT_MAX_REQUESTS_def)

subsection \<open>Connection registry\<close>

lemma handle_message_clients:
  "connected_clients (snd (handle_message env st ws now r loaded)) = connected_clients st"
  by (simp add: handle_message_def Let_def split: prod.splits parsed.splits)

lemma step_within_limit: "within_limit st \<Longrightarrow> within_limit (step env st ev)"
proof (cases ev)
  case (Connect ws)
  assume "within_limit st"
  then show ?thesis using Connect
    by (auto simp: within_limit_def connect_def card_insert_if)
next
  case (Message ws now r loaded)
  assume a: "within_limit st"
  have c: "connected_clients (snd (handle_message env st ws now r loaded)) = connected_clients st"
    by (rule handle_message_clients)
  have "within_limit (cleanup (snd (handle_message env st ws now r loaded)) ws)"
    using a c by (auto simp: within_limit_def cleanup_def intro: order_trans [OF card_Diff1_le])
  moreover have "within_limit (snd (handle_message env st ws now r loaded))"
    using a c by (simp add: within_limit_def)
  ultimately show ?thesis using Message a
    by (simp add: split_beta)
next
  case (Disconnect ws)
  assume a: "within_limit st"
  then show ?thesis using Disconnect
    by (auto simp: within_limit_def cleanup_def intro: order_trans [OF card_Diff1_le])
qed

lemma foldl_within_limit: "within_limit st \<Longrightarrow> within_limit (foldl (step env) st evs)"
  by (induction evs arbitrary: st) (simp_all add: step_within_limit)

lemma run_within_limit: "within_limit (run env evs)"
  unfolding run_def by (rule foldl_within_limit) (simp add: within_limit_def init_state_def)

text \<open>
  C2. After any sequence of connection attempts, messages and disconnections from the
  empty registry, the registry holds at most \<open>MAX_CONNECTIONS\<close> connections. In every
  state with \<open>MAX_CONNECTIONS\<close> registered connections the next attempt is closed with
  code 1013, "Maximum connections reached", and the state is unchanged; once one
  registered connection has ended, the next attempt is admitted and registered.
\<close>

theorem connection_limit:
  "finite (connected_clients (run env evs))
   \<and> card (connected_clients (run env evs)) \<le> MAX_CONNECTIONS
   \<and> (card (connected_clients st) = MAX_CONNECTIONS \<longrightarrow>
        connect st ws = (Some (1013, ''Maximum connections reached''), st))
   \<and> (card (connected_clients st) = MAX_CONNECTIONS \<and> old \<in> connected_clients st \<longrightarrow>
        fst (connect (step env st (Disconnect old)) ws) = None
        \<and> ws \<in> connected_clients (snd (connect (step env st (Disconnect old)) ws)))"
proof -
  have a: "finite (connected_clients (run env evs))
      \<and> card (connected_clients (run env evs)) \<le> MAX_CONNECTIONS"
    using run_within_limit [of env evs] by (simp add: within_limit_def)
  have b: "connect st ws = (Some (1013, ''Maximum connections reached''), st)"
    if "card (connected_clients st) = MAX_CONNECTIONS"
    using that by (simp add: connect_def)
  have c: "fst (connect (step env st (Disconnect old)) ws) = None
        \<and> ws \<in> connected_clients (snd (connect (step env st (Disconnect old)) ws))"
    if h: "card (connected_clients st) = MAX_CONNECTIONS" "old \<in> connected_clients st"
  proof -
    have fin: "finite (connected_clients st)"
      using h(1) by (auto simp: MAX_CONNECTIONS_def intro: card_ge_0_finite)
    have "card (connected_clients st - {old}) < MAX_CONNECTIONS"
      using h fin by (simp add: card_Diff_singleton MAX_CONNECTIONS_def)
    then show ?thesis
      using h(2) by (simp add: connect_def cleanup_def)
  qed
  show ?thesis using a b c by blast
qed

theorem connection_limit_witness:
  "connect \<lparr>connected_clients = {\<lparr>ws_id = 1, remote_address = ''a''\<rparr>,
        \<lparr>ws_id = 2, remote_address = ''b''\<rparr>, \<lparr>ws_id = 3, remote_address = ''c''\<rparr>,
        \<lparr>ws_id = 4, remote_address = ''d''\<rparr>, \<lparr>ws_id = 5, remote_address = ''e''\<rparr>},
      rate_limit_tracker = empty_tracker\<rparr> \<lparr>ws_id = 6, remote_address = ''f''\<rparr>
   = (Some (1013, ''Maximum connections reached''),
      \<lparr>connected_clients = {\<lparr>ws_id = 1, remote_address = ''a''\<rparr>,
        \<lparr>ws_id = 2, remote_address = ''b''\<rparr>, \<lparr>ws_id = 3, remote_address = ''c''\<rparr>,
        \<lparr>ws_id = 4, remote_address = ''d''\<rparr>, \<lparr>ws_id = 5, remote_address = ''e''\<rparr>},
      rate_limit_tracker = empty_tracker\<rparr>)
   \<and> fst (connect (step \<lparr>EDGE_TTS_VOICE = None, synthesize = (\<lambda>t v. Synthesis [] None)\<rparr>
          \<lparr>connected_clients = {\<lparr>ws_id = 1, remote_address = ''a''\<rparr>,
        \<lparr>ws_id = 2, remote_address = ''b''\<rparr>, \<lparr>ws_id = 3, remote_address = ''c''\<rparr>,
        \<lparr>ws_id = 4, remote_address = ''d''\<rparr>, \<lparr>ws_id = 5, remote_address = ''e''\<rparr>},
      rate_limit_tracker = empty_tracker\<rparr> (Disconnect \<lparr>ws_id = 3, remote_address = ''c''\<rparr>))
        \<lparr>ws_id = 6, remote_address = ''f''\<rparr>) = None"
proof -
  let ?st = "\<lparr>connected_clients = {\<lparr>ws_id = 1, remote_address = ''a''\<rparr>,
        \<lparr>ws_id = 2, remote_address = ''b''\<rparr>, \<lparr>ws_id = 3, remote_address = ''c''\<rparr>,
        \<lparr>ws_id = 4, remote_address = ''d''\<rparr>, \<lparr>ws_id = 5, remote_address = ''e''\<rparr>},
      rate_limit_tracker = empty_tracker\<rparr>"
  have h1: "card (connected_clients ?st) = MAX_CONNECTIONS"
    by (simp add: MAX_CONNECTIONS_def)
  have h2: "\<lparr>ws_id = 3, remote_address = ''c''\<rparr> \<in> connected_clients ?st"
    by simp
  note r = connection_limit [of _ "[]" ?st _ "\<lparr>ws_id = 3, remote_address = ''c''\<rparr>"]
  show ?thesis
    using r h1 h2 by blast
qed

subsection \<open>Synthesis responses\<close>

lemmas eval_defs =
  handle_message_def check_rate_limit_def round_double_less_60 tracker_get_def init_state_def empty_tracker_def
  RATE_LIMIT_WINDOW_def RATE_LIMIT_MAX_REQUESTS_def parse_request_def plain_fallback_def
  strip_def py_isspace_def handle_request_def py_len_def MAX_TEXT_LENGTH_def
  validate_voice_def DEFAULT_VOICE_def ALLOWED_VOICES_def reply_def crash_def
  stream_tts_def

lemma stream_chunks_audio: "\<exists>ds. fst (stream_chunks cs) = map AudioChunk ds"
proof (induction cs)
  case Nil
  show ?case by simp
next
  case (Cons c cs)
  then obtain ds where ds: "fst (stream_chunks cs) = map AudioChunk ds" by blast
  show ?case
  proof (cases "ctype c = ''audio''")
    case False
    then show ?thesis using ds by auto
  next
    case True
    show ?thesis
    proof (cases "cdata c")
      case None
      then show ?thesis using True by simp
    next
      case (Some d)
      have "fst (stream_chunks (c # cs)) = map AudioChunk (d # ds)"
        using True Some ds by (simp add: split_beta)
      then show ?thesis by blast
    qed
  qed
qed

lemma stream_chunks_filter:
  "stream_chunks (filter (\<lambda>c. ctype c = ''audio'') cs) = stream_chunks cs"
  by (induction cs) (simp_all split: option.splits)

lemma stream_chunks_complete:
  "\<forall>c \<in> set cs. ctype c = ''audio'' \<longrightarrow> cdata c \<noteq> None \<Longrightarrow>
   stream_chunks cs =
     (map (\<lambda>c. AudioChunk (the (cdata c))) (filter (\<lambda>c. ctype c = ''audio'') cs), None)"
  by (induction cs) auto

lemma stream_tts_shape:
  "\<exists>ds. (stream_tts syn = map AudioChunk ds @ [EndOfStream]
        \<or> (\<exists>m. stream_tts syn = map AudioChunk ds @ [ErrorMsg m, EndOfStream]))
     \<and> (failure syn \<noteq> None \<longrightarrow>
          (\<exists>m. stream_tts syn = map AudioChunk ds @ [ErrorMsg m, EndOfStream]))"
proof -
  obtain ds where ds: "fst (stream_chunks (chunks syn)) = map AudioChunk ds"
    using stream_chunks_audio by blast
  obtain rs e where se: "stream_chunks (chunks syn) = (rs, e)"
    by (cases "stream_chunks (chunks syn)")
  have rs: "rs = map AudioChunk ds" using ds se by simp
  show ?thesis
    using se rs by (auto simp: stream_tts_def split: option.splits intro!: exI [of _ ds])
qed

lemma count_list_audio [simp]: "count_list (map AudioChunk ds) EndOfStream = 0"
  by (induction ds) simp_all

lemma handle_request_forwarded:
  "forwarded (handle_request env text voice) = Some (t, v) \<Longrightarrow>
   sent (handle_request env text voice) = stream_tts (synthesize env t v)
   \<and> raised (handle_request env text voice) = None \<and> t = text"
  by (auto simp: handle_request_def reply_def crash_def
      split: sum.splits if_splits json.splits)

lemma handle_message_forwarded:
  "forwarded (fst (handle_message env st ws now r loaded)) = Some (t, v) \<Longrightarrow>
   sent (fst (handle_message env st ws now r loaded)) = stream_tts (synthesize env t v)
   \<and> raised (fst (handle_message env st ws now r loaded)) = None"
  by (auto simp: handle_message_def Let_def reply_def crash_def
      dest: handle_request_forwarded
      split: prod.splits if_splits parsed.splits)

text \<open>
  C3. Whenever an iteration hands a request to the synthesis collaborator, what it sends
  is the forwarded audio chunks followed either by the sentinel alone or by one error
  message and the sentinel: exactly one \<open>EndOfStream\<close>, in last place. When the
  collaborator fails, it is the second form: zero or more chunks, one error message, one
  sentinel, in that order.
\<close>

theorem synthesis_response_terminated:
  assumes "forwarded (fst (handle_message env st ws now r loaded)) = Some (text, voice)"
  shows "\<exists>ds. (sent (fst (handle_message env st ws now r loaded))
                = map AudioChunk ds @ [EndOfStream]
             \<or> (\<exists>m. sent (fst (handle_message env st ws now r loaded))
                = map AudioChunk ds @ [ErrorMsg m, EndOfStream]))
          \<and> (failure (synthesize env text voice) \<noteq> None \<longrightarrow>
               (\<exists>m. sent (fst (handle_message env st ws now r loaded))
                  = map AudioChunk ds @ [ErrorMsg m, EndOfStream]))
          \<and> count_list (sent (fst (handle_message env st ws now r loaded))) EndOfStream = 1
          \<and> last (sent (fst (handle_message env st ws now r loaded))) = EndOfStream"
proof -
  let ?out = "sent (fst (handle_message env st ws now r loaded))"
  have out: "?out = stream_tts (synthesize env text voice)"
    using handle_message_forwarded [OF assms] by simp
  obtain ds where ds:
    "?out = map AudioChunk ds @ [EndOfStream]
       \<or> (\<exists>m. ?out = map AudioChunk ds @ [ErrorMsg m, EndOfStream])"
    "failure (synthesize env text voice) \<noteq> None \<longrightarrow>
       (\<exists>m. ?out = map AudioChunk ds @ [ErrorMsg m, EndOfStream])"
    using stream_tts_shape [of "synthesize env text voice"] out by auto
  have "count_list ?out EndOfStream = 1 \<and> last ?out = EndOfStream"
    using ds(1) by auto
  then show ?thesis using ds by blast
qed

theorem synthesis_response_terminated_witness:
  "forwarded (fst (handle_message
       \<lparr>EDGE_TTS_VOICE = None,
        synthesize = (\<lambda>t v. Synthesis [Chunk ''audio'' (Some ''ab'')] (Some ''boom''))\<rparr>
       init_state \<lparr>ws_id = 1, remote_address = ''a''\<rparr> 0 (Str ''hi'')
       (LoadsRaised JSONDecodeError))) = Some (JStr ''hi'', ''en-GB-RyanNeural'')
   \<and> (\<exists>ds m. sent (fst (handle_message
       \<lparr>EDGE_TTS_VOICE = None,
        synthesize = (\<lambda>t v. Synthesis [Chunk ''audio'' (Some ''ab'')] (Some ''boom''))\<rparr>
       init_state \<lparr>ws_id = 1, remote_address = ''a''\<rparr> 0 (Str ''hi'')
       (LoadsRaised JSONDecodeError))) = map AudioChunk ds @ [ErrorMsg m, EndOfStream])
   \<and> count_list (sent (fst (handle_message
       \<lparr>EDGE_TTS_VOICE = None,
        synthesize = (\<lambda>t v. Synthesis [Chunk ''audio'' (Some ''ab'')] (Some ''boom''))\<rparr>
       init_state \<lparr>ws_id = 1, remote_address = ''a''\<rparr> 0 (Str ''hi'')
       (LoadsRaised JSONDecodeError)))) EndOfStream = 1"
proof -
  let ?env = "\<lparr>EDGE_TTS_VOICE = None,
        synthesize = (\<lambda>t v. Synthesis [Chunk ''audio'' (Some ''ab'')] (Some ''boom''))\<rparr>"
  let ?res = "fst (handle_message ?env init_state \<lparr>ws_id = 1, remote_address = ''a''\<rparr> 0
       (Str ''hi'') (LoadsRaised JSONDecodeError))"
  have h: "forwarded ?res = Some (JStr ''hi'', ''en-GB-RyanNeural'')"
    by (simp add: eval_defs)
  have f: "failure (synthesize ?env (JStr ''hi'') ''en-GB-RyanNeural'') \<noteq> None"
    by simp
  from synthesis_response_terminated [OF h] f h
  show ?thesis by blast
qed

text \<open>
  C10. For a request handed to the collaborator, what is sent is what would be sent had
  the collaborator yielded its chunks of type \<^verbatim>\<open>"audio"\<close> only: chunks of any other
  type are dropped and change neither the chunks sent nor how the sequence ends. When
  every audio chunk carries data, the chunks sent are exactly the data of the audio
  chunks, in order.
\<close>

theorem non_audio_chunks_dropped:
  assumes "forwarded (fst (handle_message env st ws now r loaded)) = Some (text, voice)"
    and "synthesize env text voice = Synthesis cs f"
  shows "sent (fst (handle_message env st ws now r loaded))
           = stream_tts (Synthesis (filter (\<lambda>c. ctype c = ''audio'') cs) f)
       \<and> ((\<forall>c \<in> set cs. ctype c = ''audio'' \<longrightarrow> cdata c \<noteq> None) \<longrightarrow>
            sent (fst (handle_message env st ws now r loaded))
              = map (\<lambda>c. AudioChunk (the (cdata c))) (filter (\<lambda>c. ctype c = ''audio'') cs)
                @ (case f of None \<Rightarrow> [EndOfStream]
                   | Some e \<Rightarrow> [ErrorMsg (''TTS failed: '' @ e), EndOfStream]))"
proof -
  have out: "sent (fst (handle_message env st ws now r loaded)) = stream_tts (Synthesis cs f)"
    using handle_message_forwarded [OF assms(1)] assms(2) by simp
  have a: "stream_tts (Synthesis cs f)
      = stream_tts (Synthesis (filter (\<lambda>c. ctype c = ''audio'') cs) f)"
    by (simp add: stream_tts_def stream_chunks_filter split: prod.splits option.splits)
  have b: "stream_tts (Synthesis cs f)
      = map (\<lambda>c. AudioChunk (the (cdata c))) (filter (\<lambda>c. ctype c = ''audio'') cs)
                @ (case f of None \<Rightarrow> [EndOfStream]
                   | Some e \<Rightarrow> [ErrorMsg (''TTS failed: '' @ e), EndOfStream])"
    if "\<forall>c \<in> set cs. ctype c = ''audio'' \<longrightarrow> cdata c \<noteq> None"
    using stream_chunks_complete [OF that]
    by (simp add: stream_tts_def split: option.splits)
  show ?thesis using out a b by simp
qed

theorem non_audio_chunks_dropped_witness:
  "sent (fst (handle_message
       \<lparr>EDGE_TTS_VOICE = None,
        synthesize = (\<lambda>t v. Synthesis [Chunk ''WordBoundary'' None, Chunk ''audio'' (Some ''ab''),
            Chunk ''SentenceBoundary'' None, Chunk ''audio'' (Some ''cd'')] None)\<rparr>
       init_state \<lparr>ws_id = 1, remote_address = ''a''\<rparr> 0 (Str ''hi'')
       (LoadsRaised JSONDecodeError)))
   = [AudioChunk ''ab'', AudioChunk ''cd'', EndOfStream]"
proof -
  let ?cs = "[Chunk ''WordBoundary'' None, Chunk ''audio'' (Some ''ab''),
            Chunk ''SentenceBoundary'' None, Chunk ''audio'' (Some ''cd'')]"
  let ?env = "\<lparr>EDGE_TTS_VOICE = None, synthesize = (\<lambda>t v. Synthesis ?cs None)\<rparr>"
  let ?res = "fst (handle_message ?env init_state \<lparr>ws_id = 1, remote_address = ''a''\<rparr> 0
       (Str ''hi'') (LoadsRaised JSONDecodeError))"
  have h: "forwarded ?res = Some (JStr ''hi'', ''en-GB-RyanNeural'')"
    by (simp add: eval_defs)
  have s: "synthesize ?env (JStr ''hi'') ''en-GB-RyanNeural'' = Synthesis ?cs None"
    by simp
  have d: "\<forall>c \<in> set ?cs. ctype c = ''audio'' \<longrightarrow> cdata c \<noteq> None"
    by simp
  note r = non_audio_chunks_dropped [OF h s, THEN conjunct2, THEN mp, OF d]
  show ?thesis using r by simp
qed

subsection \<open>Requests: voice, malformed input, length\<close>

lemma validate_voice_range:
  "validate_voice dv voice = Inr v \<Longrightarrow> v \<in> ALLOWED_VOICES \<or> v = dv"
  by (auto simp: validate_voice_def split: json.splits if_splits)

lemma handle_request_voice:
  "forwarded (handle_request env text voice) = Some (t, v) \<Longrightarrow>
   v \<in> ALLOWED_VOICES \<or> v = DEFAULT_VOICE env"
  by (auto simp: handle_request_def reply_def crash_def
      split: sum.splits if_splits json.splits dest: validate_voice_range)

lemma handle_message_voice:
  "forwarded (fst (handle_message env st ws now r loaded)) = Some (t, v) \<Longrightarrow>
   v \<in> ALLOWED_VOICES \<or> v = DEFAULT_VOICE env"
  by (auto simp: handle_message_def Let_def reply_def crash_def
      dest: handle_request_voice
      split: prod.splits if_splits parsed.splits)

lemma validate_voice_replaced:
  "outside_allow_set voice \<Longrightarrow> validate_voice dv voice = Inr dv"
  by (auto simp: validate_voice_def outside_allow_set_def split: json.splits)

lemma validate_voice_default: "validate_voice dv (JStr dv) = Inr dv"
  by (simp add: validate_voice_def)

lemma handle_message_admitted:
  "fst (check_rate_limit (remote_address ws) now (rate_limit_tracker st)) \<Longrightarrow>
   handle_message env st ws now r loaded =
     (let st1 = st\<lparr>rate_limit_tracker :=
                   snd (check_rate_limit (remote_address ws) now (rate_limit_tracker st))\<rparr>
      in case parse_request (DEFAULT_VOICE env) r loaded of
           Health \<Rightarrow>
             (reply [HealthStatus ''ok'' SERVER_VERSION (card (connected_clients st))], st1)
         | Guidance \<Rightarrow> (reply [ErrorMsg GUIDANCE_MESSAGE], st1)
         | Uncaught e \<Rightarrow> (crash e, st1)
         | Request text voice \<Rightarrow> (handle_request env text voice, st1))"
  by (cases "check_rate_limit (remote_address ws) now (rate_limit_tracker st)")
    (simp add: handle_message_def Let_def split: parsed.splits)

lemma handle_message_denied:
  "\<not> fst (check_rate_limit (remote_address ws) now (rate_limit_tracker st)) \<Longrightarrow>
   handle_message env st ws now r loaded =
     (reply [ErrorMsg RATE_LIMIT_MESSAGE],
      st\<lparr>rate_limit_tracker :=
            snd (check_rate_limit (remote_address ws) now (rate_limit_tracker st))\<rparr>)"
  by (cases "check_rate_limit (remote_address ws) now (rate_limit_tracker st)")
    (simp add: handle_message_def Let_def)

lemma handle_request_ok:
  "length s \<le> MAX_TEXT_LENGTH \<Longrightarrow> validate_voice (DEFAULT_VOICE env) voice = Inr v \<Longrightarrow>
   handle_request env (JStr s) voice =
     \<lparr>sent = stream_tts (synthesize env (JStr s) v),
      forwarded = Some (JStr s, v), raised = None\<rparr>"
  by (simp add: handle_request_def py_len_def)

lemma handle_request_too_long:
  "length s > MAX_TEXT_LENGTH \<Longrightarrow>
   handle_request env (JStr s) voice = reply [ErrorMsg LENGTH_MESSAGE]"
  by (simp add: handle_request_def py_len_def)

lemma LENGTH_MESSAGE_eq:
  "LENGTH_MESSAGE = ''Text exceeds maximum length of 5000 characters''"
  by (simp add: LENGTH_MESSAGE_def MAX_TEXT_LENGTH_def)

text \<open>
  C4 (as amended). The voice handed to the collaborator is a member of the allow-set or
  the configured default voice, hence a member of the allow-set whenever the configured
  default is one. A request whose voice is absent, or is a hashable value outside the
  allow-set, is synthesized with the configured default voice: nothing but the synthesis
  response is sent and no exception is raised.
\<close>

theorem forwarded_voice:
  "(forwarded (fst (handle_message env st ws now r loaded)) = Some (text, v) \<longrightarrow>
      (v \<in> ALLOWED_VOICES \<or> v = DEFAULT_VOICE env)
      \<and> (DEFAULT_VOICE env \<in> ALLOWED_VOICES \<longrightarrow> v \<in> ALLOWED_VOICES))
   \<and> (fst (check_rate_limit (remote_address ws) now (rate_limit_tracker st))
       \<and> map_of kv ''command'' \<noteq> Some (JStr ''health'')
       \<and> map_of kv ''text'' = Some (JStr s) \<and> length s \<le> MAX_TEXT_LENGTH
       \<and> (map_of kv ''voice'' = None
           \<or> (\<exists>x. map_of kv ''voice'' = Some x \<and> outside_allow_set x)) \<longrightarrow>
       fst (handle_message env st ws now r (Loaded (JObj kv)))
         = \<lparr>sent = stream_tts (synthesize env (JStr s) (DEFAULT_VOICE env)),
            forwarded = Some (JStr s, DEFAULT_VOICE env), raised = None\<rparr>)"
proof -
  have a: "(v \<in> ALLOWED_VOICES \<or> v = DEFAULT_VOICE env)
      \<and> (DEFAULT_VOICE env \<in> ALLOWED_VOICES \<longrightarrow> v \<in> ALLOWED_VOICES)"
    if "forwarded (fst (handle_message env st ws now r loaded)) = Some (text, v)"
    using handle_message_voice [OF that] by auto
  have b: "fst (handle_message env st ws now r (Loaded (JObj kv)))
         = \<lparr>sent = stream_tts (synthesize env (JStr s) (DEFAULT_VOICE env)),
            forwarded = Some (JStr s, DEFAULT_VOICE env), raised = None\<rparr>"
    if adm: "fst (check_rate_limit (remote_address ws) now (rate_limit_tracker st))"
      and cmd: "map_of kv ''command'' \<noteq> Some (JStr ''health'')"
      and tfield: "map_of kv ''text'' = Some (JStr s)" and len: "length s \<le> MAX_TEXT_LENGTH"
      and vo: "map_of kv ''voice'' = None
           \<or> (\<exists>x. map_of kv ''voice'' = Some x \<and> outside_allow_set x)"
  proof -
    obtain voice where p: "parse_request (DEFAULT_VOICE env) r (Loaded (JObj kv))
        = Request (JStr s) voice"
      and vv: "validate_voice (DEFAULT_VOICE env) voice = Inr (DEFAULT_VOICE env)"
      using cmd tfield vo
      by (auto simp: parse_request_def validate_voice_default validate_voice_replaced)
    show ?thesis
      using handle_request_ok [OF len vv]
      by (simp add: handle_message_admitted [OF adm] p Let_def)
  qed
  show ?thesis using a b by blast
qed

theorem forwarded_voice_witness:
  "fst (handle_message \<lparr>EDGE_TTS_VOICE = None, synthesize = (\<lambda>t v. Synthesis [] None)\<rparr>
      init_state \<lparr>ws_id = 1, remote_address = ''a''\<rparr> 0
      (Str (''{'' @ quoted ''text'' @ '': '' @ quoted ''hi'' @ '', '' @ quoted ''voice'' @ '': '' @ quoted ''de-DE-KatjaNeural'' @ ''}''))
      (Loaded (JObj [(''text'', JStr ''hi''), (''voice'', JStr ''de-DE-KatjaNeural'')])))
    = \<lparr>sent = [EndOfStream], forwarded = Some (JStr ''hi'', ''en-GB-RyanNeural''),
       raised = None\<rparr>"
proof -
  let ?env = "\<lparr>EDGE_TTS_VOICE = None, synthesize = (\<lambda>t v. Synthesis [] None)\<rparr>"
  let ?ws = "\<lparr>ws_id = 1, remote_address = ''a''\<rparr>"
  let ?kv = "[(''text'', JStr ''hi''), (''voice'', JStr ''de-DE-KatjaNeural'')]"
  have adm: "fst (check_rate_limit (remote_address ?ws) 0 (rate_limit_tracker init_state))"
    by (simp add: eval_defs)
  have h: "map_of ?kv ''command'' \<noteq> Some (JStr ''health'')
      \<and> map_of ?kv ''text'' = Some (JStr ''hi'') \<and> length ''hi'' \<le> MAX_TEXT_LENGTH
      \<and> (map_of ?kv ''voice'' = None
           \<or> (\<exists>x. map_of ?kv ''voice'' = Some x \<and> outside_allow_set x))"
    by (simp add: MAX_TEXT_LENGTH_def outside_allow_set_def ALLOWED_VOICES_def)
  note r = forwarded_voice [of ?env init_state ?ws 0 _ _ _ _ ?kv "''hi''", THEN conjunct2]
  from r adm h
  have "fst (handle_message ?env init_state ?ws 0
          (Str (''{'' @ quoted ''text'' @ '': '' @ quoted ''hi'' @ '', '' @ quoted ''voice'' @ '': '' @ quoted ''de-DE-KatjaNeural'' @ ''}'')) (Loaded (JObj ?kv)))
         = \<lparr>sent = stream_tts (synthesize ?env (JStr ''hi'') (DEFAULT_VOICE ?env)),
            forwarded = Some (JStr ''hi'', DEFAULT_VOICE ?env), raised = None\<rparr>"
    by blast
  then show ?thesis
    by (simp add: stream_tts_def DEFAULT_VOICE_def)
qed

text \<open>
  C4 as stated fails when \<^verbatim>\<open>EDGE_TTS_VOICE\<close> names a voice outside the allow-set: the
  replacement voice is then forwarded, and it is not a member of the set.
\<close>

theorem default_voice_counterexample:
  "forwarded (fst (handle_message
      \<lparr>EDGE_TTS_VOICE = Some ''fr-FR-HenriNeural'', synthesize = (\<lambda>t v. Synthesis [] None)\<rparr>
      init_state \<lparr>ws_id = 1, remote_address = ''a''\<rparr> 0
      (Str (''{'' @ quoted ''text'' @ '': '' @ quoted ''hi'' @ '', '' @ quoted ''voice'' @ '': '' @ quoted ''de-DE-KatjaNeural'' @ ''}''))
      (Loaded (JObj [(''text'', JStr ''hi''), (''voice'', JStr ''de-DE-KatjaNeural'')]))))
    = Some (JStr ''hi'', ''fr-FR-HenriNeural'')
   \<and> ''fr-FR-HenriNeural'' \<notin> ALLOWED_VOICES"
  by (simp add: eval_defs)

lemma session_loop_continues:
  "raised (fst (handle_message env st ws now r loaded)) = None \<Longrightarrow>
   session_loop env st ws ((now, r, loaded) # ms) =
     (case session_loop env (snd (handle_message env st ws now r loaded)) ws ms of
        (rs, e, st2) \<Rightarrow> (sent (fst (handle_message env st ws now r loaded)) @ rs, e, st2))"
  by (simp add: split_beta)

lemma session_loop_stops:
  "raised (fst (handle_message env st ws now r loaded)) = Some e \<Longrightarrow>
   session_loop env st ws ((now, r, loaded) # ms) =
     (sent (fst (handle_message env st ws now r loaded)), Some e,
      snd (handle_message env st ws now r loaded))"
  by (simp add: split_beta)

lemma plain_text_fallback:
  assumes "fst (check_rate_limit (remote_address ws) now (rate_limit_tracker st))"
    and "e \<in> {JSONDecodeError, KeyError, TypeError}"
  shows "fst (handle_message env st ws now r (LoadsRaised e)) =
     (case r of
        Str s \<Rightarrow>
          if strip s \<noteq> [] then handle_request env (JStr (strip s)) (JStr (DEFAULT_VOICE env))
          else reply [ErrorMsg GUIDANCE_MESSAGE]
      | Bytes b \<Rightarrow> reply [ErrorMsg GUIDANCE_MESSAGE])"
  using assms(2)
  by (simp add: handle_message_admitted [OF assms(1)] parse_request_def plain_fallback_def
      Let_def split: raw.splits)

text \<open>
  C5 (the code departs from it). The fallback of C5 is taken when \<^verbatim>\<open>json.loads\<close> raises
  \<^verbatim>\<open>JSONDecodeError\<close> or the decoded object has no \<^verbatim>\<open>"text"\<close> key. A message that
  decodes to anything but an object (\<^verbatim>\<open>42\<close>, \<^verbatim>\<open>"hello"\<close>, \<^verbatim>\<open>[1]\<close>, \<^verbatim>\<open>null\<close>) is not
  covered: \<^verbatim>\<open>msg.get\<close> raises \<^verbatim>\<open>AttributeError\<close>, which the \<^verbatim>\<open>except\<close> clause does not
  name. Nothing is sent, the loop ends with the exception, later messages are never
  handled, and the connection is removed from the registry.
\<close>

theorem non_object_json_uncaught:
  assumes "fst (check_rate_limit (remote_address ws) now (rate_limit_tracker st))"
    and "\<forall>kv. msg \<noteq> JObj kv"
  shows "fst (handle_message env st ws now r (Loaded msg)) = crash AttributeError
       \<and> fst (session_loop env st ws ((now, r, Loaded msg) # ms)) = []
       \<and> fst (snd (session_loop env st ws ((now, r, Loaded msg) # ms))) = Some AttributeError
       \<and> ws \<notin> connected_clients (step env st (Message ws now r (Loaded msg)))"
proof -
  have p: "parse_request (DEFAULT_VOICE env) r (Loaded msg) = Uncaught AttributeError"
    using assms(2) by (cases msg) (simp_all add: parse_request_def)
  have a: "fst (handle_message env st ws now r (Loaded msg)) = crash AttributeError"
    by (simp add: handle_message_admitted [OF assms(1)] p Let_def)
  have r: "raised (fst (handle_message env st ws now r (Loaded msg))) = Some AttributeError"
    "sent (fst (handle_message env st ws now r (Loaded msg))) = []"
    by (simp_all add: a crash_def)
  have b: "session_loop env st ws ((now, r, Loaded msg) # ms)
      = ([], Some AttributeError, snd (handle_message env st ws now r (Loaded msg)))"
    using session_loop_stops [OF r(1), of ms] r(2) by simp
  have c: "ws \<notin> connected_clients (step env st (Message ws now r (Loaded msg)))"
    using r(1) by (simp add: split_beta cleanup_def)
  show ?thesis using a b c by simp
qed

theorem non_object_json_uncaught_witness:
  "session_loop \<lparr>EDGE_TTS_VOICE = None, synthesize = (\<lambda>t v. Synthesis [] None)\<rparr>
      \<lparr>connected_clients = {\<lparr>ws_id = 1, remote_address = ''a''\<rparr>},
       rate_limit_tracker = empty_tracker\<rparr>
      \<lparr>ws_id = 1, remote_address = ''a''\<rparr>
      [(0, Str ''42'', Loaded (JNum 42)), (1, Str ''hello'', LoadsRaised JSONDecodeError)]
    = ([], Some AttributeError,
       \<lparr>connected_clients = {\<lparr>ws_id = 1, remote_address = ''a''\<rparr>},
        rate_limit_tracker = empty_tracker(''a'' \<mapsto> [0])\<rparr>)
   \<and> \<lparr>ws_id = 1, remote_address = ''a''\<rparr> \<notin> connected_clients
        (step \<lparr>EDGE_TTS_VOICE = None, synthesize = (\<lambda>t v. Synthesis [] None)\<rparr>
          \<lparr>connected_clients = {\<lparr>ws_id = 1, remote_address = ''a''\<rparr>},
           rate_limit_tracker = empty_tracker\<rparr>
          (Message \<lparr>ws_id = 1, remote_address = ''a''\<rparr> 0 (Str ''42'') (Loaded (JNum 42))))"
proof -
  let ?env = "\<lparr>EDGE_TTS_VOICE = None, synthesize = (\<lambda>t v. Synthesis [] None)\<rparr>"
  let ?ws = "\<lparr>ws_id = 1, remote_address = ''a''\<rparr>"
  let ?st = "\<lparr>connected_clients = {?ws}, rate_limit_tracker = empty_tracker\<rparr>"
  have adm: "fst (check_rate_limit (remote_address ?ws) 0 (rate_limit_tracker ?st))"
    by (simp add: eval_defs)
  have no: "\<forall>kv. JNum 42 \<noteq> JObj kv" by simp
  note r = non_object_json_uncaught [OF adm no, of ?env "Str ''42''"
      "[(1, Str ''hello'', LoadsRaised JSONDecodeError)]"]
  have s: "snd (snd (session_loop ?env ?st ?ws
      [(0, Str ''42'', Loaded (JNum 42)), (1, Str ''hello'', LoadsRaised JSONDecodeError)]))
    = \<lparr>connected_clients = {?ws}, rate_limit_tracker = empty_tracker(''a'' \<mapsto> [0])\<rparr>"
    by (simp add: eval_defs)
  show ?thesis
    using r s by (metis prod.collapse)
qed

text \<open>
  C6. For a message that passed the rate gate and whose text is a string: a text of at
  most \<open>MAX_TEXT_LENGTH\<close> code points (so one of exactly that length) is handed to the
  collaborator, given a voice that can be hashed; a longer text is answered with the
  length error alone, nothing is handed to the collaborator, no exception is raised,
  the registry is unchanged and the loop goes on with the next message.
\<close>

theorem text_length_limit:
  assumes "fst (check_rate_limit (remote_address ws) now (rate_limit_tracker st))"
    and "parse_request (DEFAULT_VOICE env) r loaded = Request (JStr s) voice"
  shows "(length s \<le> MAX_TEXT_LENGTH \<and> validate_voice (DEFAULT_VOICE env) voice = Inr v \<longrightarrow>
            fst (handle_message env st ws now r loaded)
              = \<lparr>sent = stream_tts (synthesize env (JStr s) v),
                 forwarded = Some (JStr s, v), raised = None\<rparr>)
       \<and> (length s > MAX_TEXT_LENGTH \<longrightarrow>
            fst (handle_message env st ws now r loaded)
              = \<lparr>sent = [ErrorMsg ''Text exceeds maximum length of 5000 characters''],
                 forwarded = None, raised = None\<rparr>
            \<and> connected_clients (snd (handle_message env st ws now r loaded))
                = connected_clients st
            \<and> session_loop env st ws ((now, r, loaded) # ms)
                = (case session_loop env (snd (handle_message env st ws now r loaded)) ws ms of
                     (rs, e, st2) \<Rightarrow>
                       (ErrorMsg ''Text exceeds maximum length of 5000 characters'' # rs,
                        e, st2)))"
proof -
  have hm: "fst (handle_message env st ws now r loaded) = handle_request env (JStr s) voice"
    by (simp add: handle_message_admitted [OF assms(1)] assms(2) Let_def)
  have a: "fst (handle_message env st ws now r loaded)
              = \<lparr>sent = stream_tts (synthesize env (JStr s) v),
                 forwarded = Some (JStr s, v), raised = None\<rparr>"
    if "length s \<le> MAX_TEXT_LENGTH" "validate_voice (DEFAULT_VOICE env) voice = Inr v"
    using handle_request_ok [OF that] hm by simp
  have b: "fst (handle_message env st ws now r loaded)
              = \<lparr>sent = [ErrorMsg ''Text exceeds maximum length of 5000 characters''],
                 forwarded = None, raised = None\<rparr>"
    if "length s > MAX_TEXT_LENGTH"
    using handle_request_too_long [OF that] hm by (simp add: reply_def LENGTH_MESSAGE_eq)
  have c: "session_loop env st ws ((now, r, loaded) # ms)
                = (case session_loop env (snd (handle_message env st ws now r loaded)) ws ms of
                     (rs, e, st2) \<Rightarrow>
                       (ErrorMsg ''Text exceeds maximum length of 5000 characters'' # rs,
                        e, st2))"
    if "length s > MAX_TEXT_LENGTH"
  proof -
    have "raised (fst (handle_message env st ws now r loaded)) = None"
      using b [OF that] by simp
    from session_loop_continues [OF this, of ms] show ?thesis
      using b [OF that] by simp
  qed
  show ?thesis
    using a b c handle_message_clients [of env st ws now r loaded] by blast
qed

theorem text_length_limit_witness:
  "forwarded (fst (handle_message
       \<lparr>EDGE_TTS_VOICE = None, synthesize = (\<lambda>t v. Synthesis [] None)\<rparr>
       init_state \<lparr>ws_id = 1, remote_address = ''a''\<rparr> 0
       (Str (''{'' @ quoted ''text'' @ '': '' @ quoted (replicate 5000 (CHR ''a'')) @ ''}''))
       (Loaded (JObj [(''text'', JStr (replicate 5000 (CHR ''a'')))]))))
     = Some (JStr (replicate 5000 (CHR ''a'')), ''en-GB-RyanNeural'')
   \<and> sent (fst (handle_message
       \<lparr>EDGE_TTS_VOICE = None, synthesize = (\<lambda>t v. Synthesis [] None)\<rparr>
       init_state \<lparr>ws_id = 1, remote_address = ''a''\<rparr> 0
       (Str (''{'' @ quoted ''text'' @ '': '' @ quoted (replicate 5001 (CHR ''a'')) @ ''}''))
       (Loaded (JObj [(''text'', JStr (replicate 5001 (CHR ''a'')))]))))
     = [ErrorMsg ''Text exceeds maximum length of 5000 characters'']"
proof -
  let ?env = "\<lparr>EDGE_TTS_VOICE = None, synthesize = (\<lambda>t v. Synthesis [] None)\<rparr>"
  let ?ws = "\<lparr>ws_id = 1, remote_address = ''a''\<rparr>"
  have adm: "fst (check_rate_limit (remote_address ?ws) 0 (rate_limit_tracker init_state))"
    by (simp add: eval_defs)
  have p: "parse_request (DEFAULT_VOICE ?env) r (Loaded (JObj [(''text'', JStr s)]))
      = Request (JStr s) (JStr ''en-GB-RyanNeural'')" for r s
    by (simp add: parse_request_def DEFAULT_VOICE_def)
  have v: "validate_voice (DEFAULT_VOICE ?env) (JStr ''en-GB-RyanNeural'')
      = Inr ''en-GB-RyanNeural''"
    by (simp add: validate_voice_def DEFAULT_VOICE_def)
  have l0: "length (replicate 5000 (CHR ''a'')) \<le> MAX_TEXT_LENGTH"
    by (simp add: MAX_TEXT_LENGTH_def)
  have l1: "length (replicate 5001 (CHR ''a'')) > MAX_TEXT_LENGTH"
    by (simp add: MAX_TEXT_LENGTH_def)
  note a = text_length_limit [OF adm p, THEN conjunct1, THEN mp, OF conjI, OF l0 v]
  note b = text_length_limit [OF adm p, THEN conjunct2, THEN mp, OF l1, THEN conjunct1]
  show ?thesis
    by (simp only: a b result.simps simp_thms)
qed

subsection \<open>Health check and the rate gate\<close>

text \<open>
  C8 (as amended). For every inbound message that passed the rate gate and whose
  \<^verbatim>\<open>"command"\<close> is \<^verbatim>\<open>"health"\<close>, the handler sends the status payload alone: \<^verbatim>\<open>ok\<close>,
  the server version and the number of registered connections at that moment. Nothing
  is handed to the collaborator, whatever the message holds under \<^verbatim>\<open>"text"\<close> and
  \<^verbatim>\<open>"voice"\<close>; no exception is raised and the loop goes on with the next message.
\<close>

theorem health_check_status:
  assumes "fst (check_rate_limit (remote_address ws) now (rate_limit_tracker st))"
    and "map_of kv ''command'' = Some (JStr ''health'')"
  shows "fst (handle_message env st ws now r (Loaded (JObj kv)))
           = \<lparr>sent = [HealthStatus ''ok'' ''1.0.0'' (card (connected_clients st))],
              forwarded = None, raised = None\<rparr>
       \<and> connected_clients (snd (handle_message env st ws now r (Loaded (JObj kv))))
           = connected_clients st
       \<and> session_loop env st ws ((now, r, Loaded (JObj kv)) # ms)
           = (case session_loop env
                     (snd (handle_message env st ws now r (Loaded (JObj kv)))) ws ms of
                (rs, e, st2) \<Rightarrow>
                  (HealthStatus ''ok'' ''1.0.0'' (card (connected_clients st)) # rs, e, st2))"
proof -
  have p: "parse_request (DEFAULT_VOICE env) r (Loaded (JObj kv)) = Health"
    using assms(2) by (simp add: parse_request_def)
  have a: "fst (handle_message env st ws now r (Loaded (JObj kv)))
           = \<lparr>sent = [HealthStatus ''ok'' ''1.0.0'' (card (connected_clients st))],
              forwarded = None, raised = None\<rparr>"
    by (simp add: handle_message_admitted [OF assms(1)] p Let_def reply_def SERVER_VERSION_def)
  have "raised (fst (handle_message env st ws now r (Loaded (JObj kv)))) = None"
    using a by simp
  from session_loop_continues [OF this, of ms]
  have c: "session_loop env st ws ((now, r, Loaded (JObj kv)) # ms)
           = (case session_loop env
                     (snd (handle_message env st ws now r (Loaded (JObj kv)))) ws ms of
                (rs, e, st2) \<Rightarrow>
                  (HealthStatus ''ok'' ''1.0.0'' (card (connected_clients st)) # rs, e, st2))"
    using a by simp
  show ?thesis
    using a c handle_message_clients [of env st ws now r "Loaded (JObj kv)"] by simp
qed

theorem health_check_status_witness:
  "fst (handle_message \<lparr>EDGE_TTS_VOICE = None, synthesize = (\<lambda>t v. Synthesis [] None)\<rparr>
      \<lparr>connected_clients = {\<lparr>ws_id = 1, remote_address = ''a''\<rparr>,
                            \<lparr>ws_id = 2, remote_address = ''b''\<rparr>},
       rate_limit_tracker = empty_tracker\<rparr>
      \<lparr>ws_id = 1, remote_address = ''a''\<rparr> 0
      (Str (''{'' @ quoted ''command'' @ '': '' @ quoted ''health'' @ '', ''
            @ quoted ''text'' @ '': 1, '' @ quoted ''voice'' @ '': []}''))
      (Loaded (JObj [(''command'', JStr ''health''), (''text'', JNum 1),
                     (''voice'', JArr [])])))
    = \<lparr>sent = [HealthStatus ''ok'' ''1.0.0'' 2], forwarded = None, raised = None\<rparr>"
proof -
  let ?ws = "\<lparr>ws_id = 1, remote_address = ''a''\<rparr>"
  let ?st = "\<lparr>connected_clients = {?ws, \<lparr>ws_id = 2, remote_address = ''b''\<rparr>},
       rate_limit_tracker = empty_tracker\<rparr>"
  let ?kv = "[(''command'', JStr ''health''), (''text'', JNum 1), (''voice'', JArr [])]"
  have adm: "fst (check_rate_limit (remote_address ?ws) 0 (rate_limit_tracker ?st))"
    by (simp add: eval_defs)
  have cmd: "map_of ?kv ''command'' = Some (JStr ''health'')" by simp
  have n: "card (connected_clients ?st) = 2" by simp
  note r = health_check_status [OF adm cmd, THEN conjunct1]
  show ?thesis
    by (simp only: r n)
qed

text \<open>
  C8 as stated fails for a health check that arrives when the client's rate budget is
  used up: twenty timestamps of the last minute are stored, and the answer is the
  rate-limit error, not a status payload.
\<close>

theorem health_check_rate_limited_counterexample:
  "sent (fst (handle_message
      \<lparr>EDGE_TTS_VOICE = None, synthesize = (\<lambda>t v. Synthesis [] None)\<rparr>
      \<lparr>connected_clients = {\<lparr>ws_id = 1, remote_address = ''a''\<rparr>},
       rate_limit_tracker = empty_tracker(''a'' \<mapsto>
         [0, 1, 2, 3, 4, 5, 6, 7, 8, 9, 10, 11, 12, 13, 14, 15, 16, 17, 18, 19])\<rparr>
      \<lparr>ws_id = 1, remote_address = ''a''\<rparr> 20
      (Str (''{'' @ quoted ''command'' @ '': '' @ quoted ''health'' @ ''}''))
      (Loaded (JObj [(''command'', JStr ''health'')]))))
    = [ErrorMsg ''Rate limit exceeded. Try again later.'']"
  by (simp add: eval_defs RATE_LIMIT_MESSAGE_def)

text \<open>
  C9. The rate gate runs first on every inbound message, whatever its payload and
  whatever \<^verbatim>\<open>json.loads\<close> makes of it: the tracker after the iteration is the one
  \<^verbatim>\<open>check_rate_limit\<close> returned. A message that is denied is answered with the rate-limit
  error alone, a health check included; a health check that is admitted gets its status
  payload and appends its timestamp to the client's list, so it uses one slot of the
  budget.
\<close>

theorem rate_gate_precedes_decoding:
  "rate_limit_tracker (snd (handle_message env st ws now r loaded))
     = snd (check_rate_limit (remote_address ws) now (rate_limit_tracker st))
   \<and> (\<not> fst (check_rate_limit (remote_address ws) now (rate_limit_tracker st)) \<longrightarrow>
        fst (handle_message env st ws now r loaded)
          = \<lparr>sent = [ErrorMsg ''Rate limit exceeded. Try again later.''],
             forwarded = None, raised = None\<rparr>)
   \<and> (fst (check_rate_limit (remote_address ws) now (rate_limit_tracker st))
       \<and> map_of kv ''command'' = Some (JStr ''health'') \<longrightarrow>
        sent (fst (handle_message env st ws now r (Loaded (JObj kv))))
          = [HealthStatus ''ok'' ''1.0.0'' (card (connected_clients st))]
        \<and> tracker_get (rate_limit_tracker
              (snd (handle_message env st ws now r (Loaded (JObj kv))))) (remote_address ws)
          = filter (\<lambda>t. round_double (now - t) < RATE_LIMIT_WINDOW)
              (tracker_get (rate_limit_tracker st) (remote_address ws)) @ [now])"
proof -
  have a: "rate_limit_tracker (snd (handle_message env st ws now r' l'))
     = snd (check_rate_limit (remote_address ws) now (rate_limit_tracker st))" for r' l'
    by (cases "check_rate_limit (remote_address ws) now (rate_limit_tracker st)")
      (simp add: handle_message_def Let_def split: parsed.splits)
  have b: "fst (handle_message env st ws now r loaded)
          = \<lparr>sent = [ErrorMsg ''Rate limit exceeded. Try again later.''],
             forwarded = None, raised = None\<rparr>"
    if "\<not> fst (check_rate_limit (remote_address ws) now (rate_limit_tracker st))"
    by (simp add: handle_message_denied [OF that] reply_def RATE_LIMIT_MESSAGE_def)
  have c: "sent (fst (handle_message env st ws now r (Loaded (JObj kv))))
          = [HealthStatus ''ok'' ''1.0.0'' (card (connected_clients st))]
        \<and> tracker_get (rate_limit_tracker
              (snd (handle_message env st ws now r (Loaded (JObj kv))))) (remote_address ws)
          = filter (\<lambda>t. round_double (now - t) < RATE_LIMIT_WINDOW)
              (tracker_get (rate_limit_tracker st) (remote_address ws)) @ [now]"
    if adm: "fst (check_rate_limit (remote_address ws) now (rate_limit_tracker st))"
      and cmd: "map_of kv ''command'' = Some (JStr ''health'')"
  proof -
    have p: "parse_request (DEFAULT_VOICE env) r (Loaded (JObj kv)) = Health"
      using cmd by (simp add: parse_request_def)
    have s: "sent (fst (handle_message env st ws now r (Loaded (JObj kv))))
          = [HealthStatus ''ok'' ''1.0.0'' (card (connected_clients st))]"
      by (simp add: handle_message_admitted [OF adm] p Let_def reply_def SERVER_VERSION_def)
    show ?thesis
      using s adm by (simp add: a check_rate_limit_stored)
  qed
  show ?thesis using a b c by blast
qed

theorem rate_gate_precedes_decoding_witness:
  "fst (handle_message
      \<lparr>EDGE_TTS_VOICE = None, synthesize = (\<lambda>t v. Synthesis [] None)\<rparr>
      \<lparr>connected_clients = {\<lparr>ws_id = 1, remote_address = ''a''\<rparr>},
       rate_limit_tracker = empty_tracker(''a'' \<mapsto>
         [1, 2, 3, 4, 5, 6, 7, 8, 9, 10, 11, 12, 13, 14, 15, 16, 17, 18, 19, 20])\<rparr>
      \<lparr>ws_id = 1, remote_address = ''a''\<rparr> 21
      (Str (''{'' @ quoted ''command'' @ '': '' @ quoted ''health'' @ ''}''))
      (Loaded (JObj [(''command'', JStr ''health'')])))
    = \<lparr>sent = [ErrorMsg ''Rate limit exceeded. Try again later.''],
       forwarded = None, raised = None\<rparr>
   \<and> tracker_get (rate_limit_tracker (snd (handle_message
      \<lparr>EDGE_TTS_VOICE = None, synthesize = (\<lambda>t v. Synthesis [] None)\<rparr>
      \<lparr>connected_clients = {\<lparr>ws_id = 1, remote_address = ''a''\<rparr>},
       rate_limit_tracker = empty_tracker(''a'' \<mapsto> [1, 2])\<rparr>
      \<lparr>ws_id = 1, remote_address = ''a''\<rparr> 3
      (Str (''{'' @ quoted ''command'' @ '': '' @ quoted ''health'' @ ''}''))
      (Loaded (JObj [(''command'', JStr ''health'')]))))) ''a''
    = [1, 2, 3]"
proof -
  let ?env = "\<lparr>EDGE_TTS_VOICE = None, synthesize = (\<lambda>t v. Synthesis [] None)\<rparr>"
  let ?ws = "\<lparr>ws_id = 1, remote_address = ''a''\<rparr>"
  let ?full = "\<lparr>connected_clients = {?ws},
       rate_limit_tracker = empty_tracker(''a'' \<mapsto>
         [1, 2, 3, 4, 5, 6, 7, 8, 9, 10, 11, 12, 13, 14, 15, 16, 17, 18, 19, 20])\<rparr>"
  let ?some = "\<lparr>connected_clients = {?ws},
       rate_limit_tracker = empty_tracker(''a'' \<mapsto> [1, 2])\<rparr>"
  let ?kv = "[(''command'', JStr ''health'')]"
  have den: "\<not> fst (check_rate_limit (remote_address ?ws) 21 (rate_limit_tracker ?full))"
    by (simp add: eval_defs)
  have adm: "fst (check_rate_limit (remote_address ?ws) 3 (rate_limit_tracker ?some))"
    by (simp add: eval_defs)
  have cmd: "map_of ?kv ''command'' = Some (JStr ''health'')" by simp
  note a = rate_gate_precedes_decoding [of ?env ?full ?ws 21, THEN conjunct2, THEN conjunct1,
      THEN mp, OF den]
  note b = rate_gate_precedes_decoding [of ?env ?some ?ws 3 _ _ ?kv, THEN conjunct2,
      THEN conjunct2, THEN mp, OF conjI, OF adm cmd, THEN conjunct2]
  have f: "filter (\<lambda>t. round_double (3 - t) < RATE_LIMIT_WINDOW)
      (tracker_get (rate_limit_tracker ?some) (remote_address ?ws)) @ [3] = [1, 2, 3]"
    by (simp add: eval_defs)
  show ?thesis
    using a b f by simp
qed

subsection \<open>Shutdown\<close>

lemma shutdown_eq:
  "shutdown clients =
     map (\<lambda>ws. CreateCloseTask ws 1001 ''Server shutting down'') clients
     @ (if clients = [] then [] else [WaitTasks SHUTDOWN_TIMEOUT])
     @ [ServerClose, WaitClosed SHUTDOWN_TIMEOUT]"
  by (simp add: shutdown_def)

lemma count_list_close_tasks [simp]:
  "count_list (map (\<lambda>ws. CreateCloseTask ws c m) clients) (WaitTasks n) = 0"
  "count_list (map (\<lambda>ws. CreateCloseTask ws c m) clients) ServerClose = 0"
  by (induction clients) simp_all

text \<open>
  C7 (as amended). After the shutdown trigger, a close with code 1001 is requested for
  every connection of the snapshot; if there is one, the coordinator then waits once, for
  at most \<open>SHUTDOWN_TIMEOUT\<close> seconds, and goes on without a retry. Only after these
  steps, during which the listener still accepts, is the listener closed (once), followed
  by a wait of at most \<open>SHUTDOWN_TIMEOUT\<close> seconds for it to release its resources.
\<close>

theorem shutdown_order:
  "\<exists>pre. shutdown clients = pre @ [ServerClose, WaitClosed SHUTDOWN_TIMEOUT]
     \<and> accepting pre
     \<and> (\<forall>ws \<in> set clients. CreateCloseTask ws 1001 ''Server shutting down'' \<in> set pre)
     \<and> (clients \<noteq> [] \<longrightarrow> last pre = WaitTasks SHUTDOWN_TIMEOUT)
     \<and> count_list (shutdown clients) (WaitTasks SHUTDOWN_TIMEOUT) \<le> 1
     \<and> count_list (shutdown clients) ServerClose = 1"
proof -
  let ?pre = "map (\<lambda>ws. CreateCloseTask ws 1001 ''Server shutting down'') clients
     @ (if clients = [] then [] else [WaitTasks SHUTDOWN_TIMEOUT])"
  have "shutdown clients = ?pre @ [ServerClose, WaitClosed SHUTDOWN_TIMEOUT]"
    by (simp add: shutdown_eq)
  moreover have "accepting ?pre"
    by (auto simp: accepting_def)
  moreover have "\<forall>ws \<in> set clients. CreateCloseTask ws 1001 ''Server shutting down'' \<in> set ?pre"
    by auto
  moreover have "clients \<noteq> [] \<longrightarrow> last ?pre = WaitTasks SHUTDOWN_TIMEOUT"
    by simp
  moreover have "count_list (shutdown clients) (WaitTasks SHUTDOWN_TIMEOUT) \<le> 1"
    by (simp add: shutdown_eq)
  moreover have "count_list (shutdown clients) ServerClose = 1"
    by (simp add: shutdown_eq)
  ultimately show ?thesis by blast
qed

theorem shutdown_order_witness:
  "shutdown [\<lparr>ws_id = 1, remote_address = ''a''\<rparr>, \<lparr>ws_id = 2, remote_address = ''b''\<rparr>]
     = [CreateCloseTask \<lparr>ws_id = 1, remote_address = ''a''\<rparr> 1001 ''Server shutting down'',
        CreateCloseTask \<lparr>ws_id = 2, remote_address = ''b''\<rparr> 1001 ''Server shutting down'',
        WaitTasks 5, ServerClose, WaitClosed 5]"
proof -
  let ?w1 = "\<lparr>ws_id = 1, remote_address = ''a''\<rparr>"
  let ?w2 = "\<lparr>ws_id = 2, remote_address = ''b''\<rparr>"
  obtain pre where pre: "shutdown [?w1, ?w2] = pre @ [ServerClose, WaitClosed SHUTDOWN_TIMEOUT]"
    "[?w1, ?w2] \<noteq> [] \<longrightarrow> last pre = WaitTasks SHUTDOWN_TIMEOUT"
    using shutdown_order [of "[?w1, ?w2]"] by blast
  have "shutdown [?w1, ?w2] = [CreateCloseTask ?w1 1001 ''Server shutting down'',
        CreateCloseTask ?w2 1001 ''Server shutting down'',
        WaitTasks 5, ServerClose, WaitClosed 5]"
    using pre by (simp add: shutdown_def SHUTDOWN_TIMEOUT_def)
  then show ?thesis .
qed

text \<open>
  C7 as stated fails on "immediately": with one registered connection, the first two
  steps after the trigger are the close request and the wait of up to five seconds, and
  the listener is still accepting when they are over.
\<close>

theorem listener_open_during_drain_counterexample:
  "take 2 (shutdown [\<lparr>ws_id = 1, remote_address = ''a''\<rparr>])
     = [CreateCloseTask \<lparr>ws_id = 1, remote_address = ''a''\<rparr> 1001 ''Server shutting down'',
        WaitTasks 5]
   \<and> accepting (take 2 (shutdown [\<lparr>ws_id = 1, remote_address = ''a''\<rparr>]))"
  by (simp add: shutdown_def accepting_def SHUTDOWN_TIMEOUT_def)

end
